theory Spec2Isabelle
  imports Complex_Main
begin

section \<open>WWMI VG Fixer: vertex-group renaming, versions 1.0.0 and 1.1.0\<close>

text \<open>
  The two source files \<^verbatim>\<open>WWMI_VG_Fixer_v1.0.0/WWMI_VG_Fixer.py\<close> and
  \<^verbatim>\<open>WWMI_VG_Fixer_v1.1.0/WWMI_VG_Fixer.py\<close> are embedded side by side:
  definitions that exist in both carry the suffixes \<open>_v10\<close> and \<open>_v11\<close>, and
  definitions without a suffix are literally the same in both files.

  Conventions of the embedding.
  \<^item> A Python \<open>str\<close> is a \<open>string\<close>; a \<open>char\<close> stands for a code point below 256.
    On that range the decimal digits of Python (\<open>\d\<close>, \<open>int\<close>) are exactly \<open>0\<close>..\<open>9\<close>.
  \<^item> A Python \<open>int\<close> is an \<open>int\<close>.
  \<^item> An exception that the source does not catch is a value \<open>RAISED e\<close>.
  \<^item> A message of \<open>self.report\<close> is kept as the fixed text of its f-string, without the
    interpolated path or exception.
  \<^item> The assignment \<open>vg.name = s\<close> stores \<open>s\<close>; what the host application does to a
    stored name afterwards (making it unique, cutting it to its maximal length) is outside
    the two source files and outside this embedding.
\<close>

subsection \<open>The Python library functions the source calls\<close>

datatype py_exn = ValueError | KeyError | IndexError | AttributeError | OSError | JSONDecodeError

definition is_digit :: "char \<Rightarrow> bool" where
  "is_digit c = (48 \<le> (of_char c :: nat) \<and> (of_char c :: nat) \<le> 57)"

definition digit_val :: "char \<Rightarrow> nat" where
  "digit_val c = (of_char c :: nat) - 48"

text \<open>Whitespace that \<open>int\<close> strips: tab, LF, VT, FF, CR, space, NEL and NBSP.\<close>

definition int_space :: "char \<Rightarrow> bool" where
  "int_space c = ((of_char c :: nat) \<in> {9, 10, 11, 12, 13, 32, 133, 160})"

text \<open>Whitespace for \<open>\s\<close> in a \<open>str\<close> pattern: the above and the separators 28..31.\<close>

definition re_space :: "char \<Rightarrow> bool" where
  "re_space c = ((of_char c :: nat) \<in> {9, 10, 11, 12, 13, 28, 29, 30, 31, 32, 133, 160})"

definition strip_int :: "string \<Rightarrow> string" where
  "strip_int s = rev (dropWhile int_space (rev (dropWhile int_space s)))"

text \<open>
  The body of a decimal literal for \<open>int\<close>: digits, with single underscores allowed
  between two digits.
\<close>

fun valid_body :: "string \<Rightarrow> bool" where
  "valid_body [] = False"
| "valid_body [c] = is_digit c"
| "valid_body (c # d # cs) =
     (is_digit c \<and> (if d = CHR ''_'' then valid_body cs else valid_body (d # cs)))"

definition dec_value :: "string \<Rightarrow> nat" where
  "dec_value s = foldl (\<lambda>a c. 10 * a + digit_val c) 0 (filter is_digit s)"

text \<open>
  \<open>int(s)\<close> in base 10; \<open>None\<close> is the \<open>ValueError\<close>. Leading zeros are accepted.
  Recent versions of Python refuse conversions of more than 4300 digits; the host keeps
  the names of vertex groups below 64 bytes, so that limit is not modelled.
\<close>

definition py_int :: "string \<Rightarrow> int option" where
  "py_int s =
     (case strip_int s of
        [] \<Rightarrow> None
      | c # r \<Rightarrow>
          if c = CHR ''+'' then (if valid_body r then Some (int (dec_value r)) else None)
          else if c = CHR ''-'' then (if valid_body r then Some (- int (dec_value r)) else None)
          else (if valid_body (c # r) then Some (int (dec_value (c # r))) else None))"

text \<open>\<open>str(n)\<close> for an \<open>int\<close>.\<close>

definition digit_char :: "nat \<Rightarrow> char" where
  "digit_char d = char_of (48 + d)"

function str_nat :: "nat \<Rightarrow> string" where
  "str_nat n = (if n < 10 then [digit_char n] else str_nat (n div 10) @ [digit_char (n mod 10)])"
  by pat_completeness auto
termination
  by (relation "measure (\<lambda>n. n)") auto

definition str_int :: "int \<Rightarrow> string" where
  "str_int i = (if i < 0 then CHR ''-'' # str_nat (nat (- i)) else str_nat (nat i))"

text \<open>\<open>s.startswith(p)\<close>.\<close>

definition startswith :: "string \<Rightarrow> string \<Rightarrow> bool" where
  "startswith s p = (take (length p) s = p)"

text \<open>The rest of \<open>s\<close> after the literal \<open>p\<close>, when \<open>s\<close> begins with it.\<close>

definition after_literal :: "string \<Rightarrow> string \<Rightarrow> string option" where
  "after_literal p s = (if startswith s p then Some (drop (length p) s) else None)"

text \<open>
  \<open>max\<close> of an iterable of integers: \<open>ValueError\<close> on an empty one, otherwise the running
  maximum.
\<close>

definition py_max :: "int list \<Rightarrow> py_exn + int" where
  "py_max xs = (case xs of [] \<Rightarrow> Inl ValueError | x # r \<Rightarrow> Inr (foldl max x r))"

text \<open>
  \<open>xs[i]\<close> on a list: positions \<open>0\<close> to \<open>len - 1\<close> from the front, \<open>-1\<close> down to
  \<open>-len\<close> from the back, and \<open>IndexError\<close> for every other \<open>i\<close>.
\<close>

definition py_index :: "'a list \<Rightarrow> int \<Rightarrow> py_exn + 'a" where
  "py_index xs i =
     (if 0 \<le> i \<and> i < int (length xs) then Inr (xs ! nat i)
      else if i < 0 \<and> - int (length xs) \<le> i then Inr (xs ! nat (int (length xs) + i))
      else Inl IndexError)"

subsection \<open>The two regular expressions\<close>

text \<open>
  \<open>re.compile(r"Component\s*(\d+)")\<close>: a match that starts at the head of the string.
  \<open>\s*\<close> and \<open>\d+\<close> are greedy and their classes are disjoint, so backtracking finds
  nothing more.
\<close>

definition comp_name_match_here :: "string \<Rightarrow> string option" where
  "comp_name_match_here s =
     (case after_literal ''Component'' s of
        None \<Rightarrow> None
      | Some r \<Rightarrow>
          (let ds = takeWhile is_digit (dropWhile re_space r)
           in if ds = [] then None else Some ds))"

text \<open>\<open>pattern.search(name)\<close>: the leftmost match; the result is \<open>group(1)\<close>.\<close>

fun comp_name_search :: "string \<Rightarrow> string option" where
  "comp_name_search [] = None"
| "comp_name_search (c # cs) =
     (case comp_name_match_here (c # cs) of
        Some ds \<Rightarrow> Some ds
      | None \<Rightarrow> comp_name_search cs)"


subsection \<open>Data model\<close>

text \<open>
  The metadata document, after \<open>json.load\<close>. A component is a JSON object; its
  \<open>vg_map\<close>, when the key is present, is a dict from strings to integers, kept as the
  list of its items. \<open>JOther\<close> is a document whose top level is not a JSON object.
\<close>

datatype component = Component (comp_vg_map: "(string \<times> int) list option")

datatype json_doc = JObject "component list option" | JOther

text \<open>
  What \<open>scene.wwmi_vg_metadata_path\<close> leads to: an empty path, a path that is not a file,
  a file that cannot be opened, a file that is not JSON, or a parsed document.
\<close>

datatype metadata_source = PathNotSet | NotAFile | OpenFails | BadJson | Parsed json_doc

record scene =
  wwmi_vg_metadata_path :: metadata_source
  wwmi_vg_remove_zero :: bool

datatype object_kind = MESH | OTHER

text \<open>
  A vertex group is a host object that the source holds by reference (\<open>vg\<close> is appended
  to a list and later passed to \<open>remove\<close>); \<open>vg_id\<close> is that reference. Its
  \<open>index\<close> is its position in \<open>obj.vertex_groups\<close>.
\<close>

record vgroup =
  vg_id :: nat
  vg_name :: string

text \<open>
  A vertex is the list \<open>v.groups\<close> of its memberships, each a pair of the group index
  \<open>g.group\<close> and a weight that the source never reads.
\<close>

type_synonym 'w vertex = "(nat \<times> 'w) list"

record 'w mesh_object =
  obj_kind :: object_kind
  obj_name :: string
  vertex_groups :: "vgroup list"
  vertices :: "'w vertex list"

datatype outcome = CANCELLED string | FINISHED nat | RAISED py_exn

subsection \<open>remove_zero_weight_vgroups (the same in both versions)\<close>

text \<open>The two inner loops with their \<open>break\<close>s: some vertex lists index \<open>i\<close>.\<close>

definition vg_used :: "'w vertex list \<Rightarrow> nat \<Rightarrow> bool" where
  "vg_used vs i = list_ex (\<lambda>v. list_ex (\<lambda>g. fst g = i) v) vs"

text \<open>The first loop: \<open>i\<close> is \<open>vg.index\<close> of the head of the remaining groups.\<close>

fun collect_unused :: "'w vertex list \<Rightarrow> nat \<Rightarrow> vgroup list \<Rightarrow> vgroup list" where
  "collect_unused vs i [] = []"
| "collect_unused vs i (vg # rest) =
     (if vg_used vs i then collect_unused vs (Suc i) rest
      else vg # collect_unused vs (Suc i) rest)"

fun vg_position :: "nat \<Rightarrow> vgroup list \<Rightarrow> nat option" where
  "vg_position h [] = None"
| "vg_position h (vg # rest) =
     (if vg_id vg = h then Some 0 else map_option Suc (vg_position h rest))"

text \<open>
  The host's \<open>obj.vertex_groups.remove(vg)\<close>: the group leaves the list, every vertex
  loses its membership in it, and the indices above it move down by one. A reference
  that is not in the list changes nothing here (the sweep never passes one).
\<close>

definition unassign_group :: "nat \<Rightarrow> 'w vertex \<Rightarrow> 'w vertex" where
  "unassign_group p v =
     map (\<lambda>g. (if p < fst g then fst g - 1 else fst g, snd g)) (filter (\<lambda>g. fst g \<noteq> p) v)"

definition vertex_groups_remove :: "'w mesh_object \<Rightarrow> vgroup \<Rightarrow> 'w mesh_object" where
  "vertex_groups_remove obj vg =
     (case vg_position (vg_id vg) (vertex_groups obj) of
        None \<Rightarrow> obj
      | Some p \<Rightarrow>
          obj\<lparr>vertex_groups := take p (vertex_groups obj) @ drop (Suc p) (vertex_groups obj),
              vertices := map (unassign_group p) (vertices obj)\<rparr>)"

definition remove_zero_weight_vgroups :: "'w mesh_object \<Rightarrow> 'w mesh_object" where
  "remove_zero_weight_vgroups obj =
     (let vg_to_delete = collect_unused (vertices obj) 0 (vertex_groups obj)
      in foldl vertex_groups_remove obj vg_to_delete)"

subsection \<open>Auto Fix: the body of the loop over the vertex groups\<close>

text \<open>The branch taken for one vertex group, named after the line it prints.\<close>

datatype branch = NotNumeric | AboveThreshold | MarkedCheck | AlreadyCheck | ExceptionKept | Plus256

text \<open>Version 1.0.0, lines 124 to 151. The result is the branch and the name afterwards.\<close>

definition fix_vg_v10 :: "int \<Rightarrow> int list \<Rightarrow> int \<Rightarrow> string \<Rightarrow> branch \<times> string" where
  "fix_vg_v10 threshold exception_vgs component_max_vg original_name =
     (case py_int original_name of
        None \<Rightarrow> (NotNumeric, original_name)
      | Some vg_num \<Rightarrow>
          if vg_num > threshold then (AboveThreshold, original_name)
          else if vg_num \<in> set exception_vgs then
            (if component_max_vg \<ge> 256 then
               (if \<not> startswith original_name ''Check''
                then (MarkedCheck, ''Check'' @ original_name)
                else (AlreadyCheck, original_name))
             else (ExceptionKept, original_name))
          else (Plus256, str_int (vg_num + 256)))"

text \<open>Version 1.1.0, lines 103 to 131.\<close>

definition fix_vg_v11 ::
  "int \<Rightarrow> int list \<Rightarrow> int list \<Rightarrow> int \<Rightarrow> string \<Rightarrow> branch \<times> string" where
  "fix_vg_v11 threshold global_exception_vgs local_vg_map component_max_vg original_name =
     (case py_int original_name of
        None \<Rightarrow> (NotNumeric, original_name)
      | Some vg_num \<Rightarrow>
          if vg_num > threshold then (AboveThreshold, original_name)
          else if vg_num \<in> set global_exception_vgs \<or> vg_num \<in> set local_vg_map then
            (if component_max_vg \<ge> 256 then
               (if \<not> startswith original_name ''Check''
                then (MarkedCheck, ''Check'' @ original_name)
                else (AlreadyCheck, original_name))
             else (ExceptionKept, original_name))
          else (Plus256, str_int (vg_num + 256)))"

text \<open>\<open>for vg in obj.vertex_groups\<close>: each group gets the name its body computes.\<close>

definition rename_groups :: "(string \<Rightarrow> branch \<times> string) \<Rightarrow> vgroup list \<Rightarrow> vgroup list" where
  "rename_groups body vgs = map (\<lambda>vg. vg\<lparr>vg_name := snd (body (vg_name vg))\<rparr>) vgs"

subsection \<open>Auto Fix: one selected object\<close>

text \<open>
  The result of one pass of the loop over \<open>context.selected_objects\<close>: an exception that
  leaves the loop, or the object afterwards and whether \<open>processed_objects\<close> was
  incremented. A \<open>continue\<close> is \<open>Inr (obj, False)\<close>.

  Both versions find the component of an object in the same way (lines 103 to 113 of
  version 1.0.0, lines 88 to 98 of version 1.1.0): \<open>Inr None\<close> is a \<open>continue\<close>.
\<close>

definition find_component :: "component list \<Rightarrow> string \<Rightarrow> py_exn + component option" where
  "find_component components name =
     (case comp_name_search name of
        None \<Rightarrow> Inr None
      | Some digits \<Rightarrow>
          (case py_int digits of
             None \<Rightarrow> Inl ValueError
           | Some comp_id \<Rightarrow>
               if comp_id \<ge> int (length components) then Inr None
               else (case py_index components comp_id of
                  Inl e \<Rightarrow> Inl e
                | Inr component \<Rightarrow> Inr (Some component))))"

text \<open>Version 1.0.0, lines 100 to 157.\<close>

definition process_object_v10 ::
  "component list \<Rightarrow> int \<Rightarrow> bool \<Rightarrow> 'w mesh_object \<Rightarrow> py_exn + ('w mesh_object \<times> bool)" where
  "process_object_v10 components threshold remove_zero obj =
     (if obj_kind obj \<noteq> MESH then Inr (obj, False)
      else case find_component components (obj_name obj) of
        Inl e \<Rightarrow> Inl e
      | Inr None \<Rightarrow> Inr (obj, False)
      | Inr (Some component) \<Rightarrow>
          (let vg_map = (case comp_vg_map component of None \<Rightarrow> [] | Some m \<Rightarrow> m)
           in if vg_map = [] then Inr (obj, False)
              else (let exception_vgs = map snd vg_map
                    in case py_max exception_vgs of
                         Inl e \<Rightarrow> Inl e
                       | Inr component_max_vg \<Rightarrow>
                           (let obj1 = obj\<lparr>vertex_groups :=
                                  rename_groups
                                    (fix_vg_v10 threshold exception_vgs component_max_vg)
                                    (vertex_groups obj)\<rparr>
                            in Inr (if remove_zero
                                    then remove_zero_weight_vgroups obj1
                                    else obj1, True)))))"

text \<open>Version 1.1.0, lines 86 to 136.\<close>

definition process_object_v11 ::
  "component list \<Rightarrow> int \<Rightarrow> int list \<Rightarrow> bool \<Rightarrow> 'w mesh_object
     \<Rightarrow> py_exn + ('w mesh_object \<times> bool)" where
  "process_object_v11 components threshold global_exception_vgs remove_zero obj =
     (if obj_kind obj \<noteq> MESH then Inr (obj, False)
      else case find_component components (obj_name obj) of
        Inl e \<Rightarrow> Inl e
      | Inr None \<Rightarrow> Inr (obj, False)
      | Inr (Some component) \<Rightarrow>
          (case comp_vg_map component of
             None \<Rightarrow> Inl KeyError
           | Some vg_map \<Rightarrow>
               (let local_vg_map = map snd vg_map
                in case py_max local_vg_map of
                     Inl e \<Rightarrow> Inl e
                   | Inr component_max_vg \<Rightarrow>
                       (let obj1 = obj\<lparr>vertex_groups :=
                              rename_groups
                                (fix_vg_v11 threshold global_exception_vgs
                                   local_vg_map component_max_vg)
                                (vertex_groups obj)\<rparr>
                        in Inr (if remove_zero
                                then remove_zero_weight_vgroups obj1
                                else obj1, True)))))"

text \<open>
  \<open>for obj in context.selected_objects\<close>: the objects afterwards, the count of processed
  objects and the exception that ended the loop, if any. The objects after the one that
  raised are not visited.
\<close>

fun for_selected ::
  "('o \<Rightarrow> py_exn + ('o \<times> bool)) \<Rightarrow> 'o list \<Rightarrow> 'o list \<times> nat \<times> py_exn option" where
  "for_selected body [] = ([], 0, None)"
| "for_selected body (obj # rest) =
     (case body obj of
        Inl e \<Rightarrow> (obj # rest, 0, Some e)
      | Inr r \<Rightarrow>
          (case for_selected body rest of
             (rest', n, x) \<Rightarrow> (fst r # rest', (if snd r then Suc n else n), x)))"

definition finish :: "'o list \<times> nat \<times> py_exn option \<Rightarrow> 'o list \<times> outcome" where
  "finish r =
     (case r of (objs, n, x) \<Rightarrow>
        (objs, (case x of None \<Rightarrow> FINISHED n | Some e \<Rightarrow> RAISED e)))"

subsection \<open>Auto Fix: loading the metadata, and the operator\<close>

text \<open>
  The generator \<open>v for comp in components for v in comp["vg_map"].values()\<close>, consumed
  to its end by \<open>max\<close>: a component without the key raises \<open>KeyError\<close>.
\<close>

fun all_vg_values :: "component list \<Rightarrow> py_exn + int list" where
  "all_vg_values [] = Inr []"
| "all_vg_values (component # rest) =
     (case comp_vg_map component of
        None \<Rightarrow> Inl KeyError
      | Some m \<Rightarrow>
          (case all_vg_values rest of
             Inl e \<Rightarrow> Inl e
           | Inr vs \<Rightarrow> Inr (map snd m @ vs)))"

definition merged_max_vg :: "component list \<Rightarrow> py_exn + int" where
  "merged_max_vg components =
     (case all_vg_values components of Inl e \<Rightarrow> Inl e | Inr vs \<Rightarrow> py_max vs)"

text \<open>Version 1.1.0, lines 76 to 79; \<open>i\<close> is the \<open>comp_id\<close> of \<open>enumerate\<close>.\<close>

fun global_exceptions :: "nat \<Rightarrow> component list \<Rightarrow> py_exn + int list" where
  "global_exceptions i [] = Inr []"
| "global_exceptions i (component # rest) =
     (if i \<ge> 3 then
        (case comp_vg_map component of
           None \<Rightarrow> Inl KeyError
         | Some m \<Rightarrow>
             (case global_exceptions (Suc i) rest of
                Inl e \<Rightarrow> Inl e
              | Inr vs \<Rightarrow> Inr (map snd m @ vs)))
      else global_exceptions (Suc i) rest)"

text \<open>
  Version 1.0.0, \<open>WWMI_OT_auto_fix_vgs.execute\<close>. The result is the selected objects
  afterwards and how the operator ended.
\<close>

definition execute_v10 :: "scene \<Rightarrow> 'w mesh_object list \<Rightarrow> 'w mesh_object list \<times> outcome" where
  "execute_v10 sc selected_objects =
     (case wwmi_vg_metadata_path sc of
        PathNotSet \<Rightarrow> (selected_objects, CANCELLED ''Metadata JSON path is not set.'')
      | NotAFile \<Rightarrow> (selected_objects, CANCELLED ''File not found: '')
      | OpenFails \<Rightarrow> (selected_objects, CANCELLED ''Failed to read metadata JSON: '')
      | BadJson \<Rightarrow> (selected_objects, CANCELLED ''Failed to read metadata JSON: '')
      | Parsed JOther \<Rightarrow> (selected_objects, RAISED AttributeError)
      | Parsed (JObject None) \<Rightarrow>
          (selected_objects, CANCELLED ''Invalid metadata: 'components' field missing.'')
      | Parsed (JObject (Some components)) \<Rightarrow>
          if components = [] then
            (selected_objects, CANCELLED ''Invalid metadata: 'components' field missing.'')
          else (case merged_max_vg components of
             Inl e \<Rightarrow> (selected_objects, CANCELLED ''Failed to compute max VG: '')
           | Inr m \<Rightarrow>
               finish (for_selected
                 (process_object_v10 components (m - 256) (wwmi_vg_remove_zero sc))
                 selected_objects)))"

text \<open>Version 1.1.0, \<open>WWMI_OT_auto_fix_vgs.execute\<close>.\<close>

definition execute_v11 :: "scene \<Rightarrow> 'w mesh_object list \<Rightarrow> 'w mesh_object list \<times> outcome" where
  "execute_v11 sc selected_objects =
     (case wwmi_vg_metadata_path sc of
        PathNotSet \<Rightarrow> (selected_objects, CANCELLED ''File not found: '')
      | NotAFile \<Rightarrow> (selected_objects, CANCELLED ''File not found: '')
      | OpenFails \<Rightarrow> (selected_objects, RAISED OSError)
      | BadJson \<Rightarrow> (selected_objects, RAISED JSONDecodeError)
      | Parsed JOther \<Rightarrow> (selected_objects, RAISED AttributeError)
      | Parsed (JObject None) \<Rightarrow>
          (selected_objects, CANCELLED (''Invalid metadata: no 'components'' @ [CHR 0x27]))
      | Parsed (JObject (Some components)) \<Rightarrow>
          if components = [] then
            (selected_objects, CANCELLED (''Invalid metadata: no 'components'' @ [CHR 0x27]))
          else (case merged_max_vg components of
             Inl e \<Rightarrow> (selected_objects, RAISED e)
           | Inr m \<Rightarrow>
               (case global_exceptions 0 components of
                  Inl e \<Rightarrow> (selected_objects, RAISED e)
                | Inr global_exception_vgs \<Rightarrow>
                    finish (for_selected
                      (process_object_v11 components (m - 256) global_exception_vgs
                         (wwmi_vg_remove_zero sc))
                      selected_objects))))"

subsection \<open>Remove "Check" Prefix (the same in both versions, log lines apart)\<close>




subsection \<open>The end-to-end scenario\<close>

text \<open>
  Two components with the maps \<open>{"a": 0, "b": 1}\<close> and \<open>{"a": 256, "b": 257}\<close>, and
  an object named \<open>Component 1\<close> with the vertex groups \<open>257\<close>, \<open>258\<close> and \<open>5\<close>.
\<close>

definition scenario_components :: "component list" where
  "scenario_components =
     [Component (Some [(''a'', 0), (''b'', 1)]), Component (Some [(''a'', 256), (''b'', 257)])]"

definition scenario_scene :: "bool \<Rightarrow> scene" where
  "scenario_scene rz =
     \<lparr>wwmi_vg_metadata_path = Parsed (JObject (Some scenario_components)),
      wwmi_vg_remove_zero = rz\<rparr>"

definition scenario_object :: "'w vertex list \<Rightarrow> 'w mesh_object" where
  "scenario_object vs =
     \<lparr>obj_kind = MESH, obj_name = ''Component 1'',
      vertex_groups = [\<lparr>vg_id = 0, vg_name = ''257''\<rparr>, \<lparr>vg_id = 1, vg_name = ''258''\<rparr>,
                       \<lparr>vg_id = 2, vg_name = ''5''\<rparr>],
      vertices = vs\<rparr>"

text \<open>Two vertices that between them belong to all three groups.\<close>

definition scenario_vertices :: "real vertex list" where
  "scenario_vertices = [[(0, 0), (1, 1)], [(2, 1)]]"

subsection \<open>An object for the zero-weight sweep\<close>

text \<open>
  Three groups and two vertices: the first vertex belongs to the group of index 1 with
  weight zero, the second vertex belongs to no group.
\<close>

definition sweep_example :: "real mesh_object" where
  "sweep_example =
     \<lparr>obj_kind = MESH, obj_name = ''Component 0'',
      vertex_groups = [\<lparr>vg_id = 10, vg_name = ''7''\<rparr>, \<lparr>vg_id = 11, vg_name = ''8''\<rparr>,
                       \<lparr>vg_id = 12, vg_name = ''hand''\<rparr>],
      vertices = [[(1, 0)], []]\<rparr>"

subsection \<open>A run with every kind of vertex group\<close>

text \<open>
  Four components, so that version 1.1.0 has the global exception 9 from the component at
  position 3. The merged maximum is 600 and the threshold is 344. Component 0 has the
  maximum 600 and component 1 the maximum 1.
\<close>

definition example_components :: "component list" where
  "example_components =
     [Component (Some [(''a'', 5), (''b'', 600)]), Component (Some [(''a'', 1)]),
      Component (Some [(''a'', 2)]), Component (Some [(''a'', 9)])]"

definition example_scene :: scene where
  "example_scene =
     \<lparr>wwmi_vg_metadata_path = Parsed (JObject (Some example_components)),
      wwmi_vg_remove_zero = True\<rparr>"

definition example_object_0 :: "real mesh_object" where
  "example_object_0 =
     \<lparr>obj_kind = MESH, obj_name = ''Component 0'',
      vertex_groups = [\<lparr>vg_id = 0, vg_name = ''05''\<rparr>, \<lparr>vg_id = 1, vg_name = ''7''\<rparr>,
                       \<lparr>vg_id = 2, vg_name = ''400''\<rparr>, \<lparr>vg_id = 3, vg_name = ''hand''\<rparr>,
                       \<lparr>vg_id = 4, vg_name = ''9''\<rparr>],
      vertices = [[(0, 1), (1, 1), (2, 1)], [(3, 0), (4, 1)]]\<rparr>"

definition example_object_1 :: "real mesh_object" where
  "example_object_1 =
     \<lparr>obj_kind = MESH, obj_name = ''Component 1'',
      vertex_groups = [\<lparr>vg_id = 0, vg_name = ''1''\<rparr>, \<lparr>vg_id = 1, vg_name = ''3''\<rparr>],
      vertices = [[(0, 1), (1, 1)]]\<rparr>"

definition example_objects :: "real mesh_object list" where
  "example_objects = [example_object_0, example_object_1]"

subsection \<open>A processed object\<close>

text \<open>
  The object is a mesh, its name leads to a component whose \<open>vg_map\<close> has the items
  \<open>m\<close>, and \<open>cm\<close> is the maximum of the values of \<open>m\<close> (the source's
  \<open>component_max_vg\<close>): the conditions under which both versions reach the loop over
  the vertex groups.
\<close>

definition selects_component ::
  "component list \<Rightarrow> 'w mesh_object \<Rightarrow> (string \<times> int) list \<Rightarrow> int \<Rightarrow> bool" where
  "selects_component components obj m cm =
     (obj_kind obj = MESH
      \<and> find_component components (obj_name obj) = Inr (Some (Component (Some m)))
      \<and> py_max (map snd m) = Inr cm)"

subsection \<open>An object with a signed name\<close>


subsection \<open>Metadata that cannot be used\<close>

text \<open>A scene whose metadata file is not JSON.\<close>

definition bad_json_scene :: scene where
  "bad_json_scene = \<lparr>wwmi_vg_metadata_path = BadJson, wwmi_vg_remove_zero = True\<rparr>"

text \<open>Two components, the second without the key \<open>vg_map\<close>.\<close>

definition absent_components :: "component list" where
  "absent_components = [Component (Some [(''a'', 5), (''b'', 600)]), Component None]"

definition absent_scene :: scene where
  "absent_scene =
     \<lparr>wwmi_vg_metadata_path = Parsed (JObject (Some absent_components)),
      wwmi_vg_remove_zero = True\<rparr>"

text \<open>Two components, the second with an empty \<open>vg_map\<close>.\<close>

definition empty_components :: "component list" where
  "empty_components = [Component (Some [(''a'', 5), (''b'', 600)]), Component (Some [])]"

definition empty_scene :: scene where
  "empty_scene =
     \<lparr>wwmi_vg_metadata_path = Parsed (JObject (Some empty_components)),
      wwmi_vg_remove_zero = True\<rparr>"

text \<open>A mesh whose name has no component id, and one whose id is out of range.\<close>

definition unnamed_object :: "real mesh_object" where
  "unnamed_object =
     \<lparr>obj_kind = MESH, obj_name = ''Cube'',
      vertex_groups = [\<lparr>vg_id = 0, vg_name = ''7''\<rparr>], vertices = []\<rparr>"

definition far_object :: "real mesh_object" where
  "far_object =
     \<lparr>obj_kind = MESH, obj_name = ''Component 12'',
      vertex_groups = [\<lparr>vg_id = 0, vg_name = ''7''\<rparr>], vertices = []\<rparr>"

section \<open>Properties\<close>

subsection \<open>Loading the metadata and processing one object\<close>

lemma foldl_max_Max: "foldl max a xs = Max (insert (a::int) (set xs))"
proof (induction xs arbitrary: a)
  case Nil
  show ?case by simp
next
  case (Cons x xs)
  have "Max (insert (max a x) (set xs)) = Max (insert a (insert x (set xs)))"
    by (cases "set xs = {}") (simp_all add: max.assoc)
  with Cons show ?case by simp
qed

lemma py_max_Max: "xs \<noteq> [] \<Longrightarrow> py_max xs = Inr (Max (set xs))"
  by (cases xs) (simp_all add: py_max_def foldl_max_Max)

lemma execute_v10_loaded:
  assumes "wwmi_vg_metadata_path sc = Parsed (JObject (Some components))"
    and "components \<noteq> []" and "merged_max_vg components = Inr m"
  shows "execute_v10 sc objs =
    finish (for_selected (process_object_v10 components (m - 256) (wwmi_vg_remove_zero sc)) objs)"
  using assms by (simp add: execute_v10_def)

lemma execute_v11_loaded:
  assumes "wwmi_vg_metadata_path sc = Parsed (JObject (Some components))"
    and "components \<noteq> []" and "merged_max_vg components = Inr m"
    and "global_exceptions 0 components = Inr gx"
  shows "execute_v11 sc objs =
    finish (for_selected (process_object_v11 components (m - 256) gx (wwmi_vg_remove_zero sc)) objs)"
  using assms by (simp add: execute_v11_def)

lemma process_object_v10_fixed:
  assumes "obj_kind obj = MESH"
    and "find_component components (obj_name obj) = Inr (Some (Component (Some m)))"
    and "m \<noteq> []"
  shows "process_object_v10 components threshold rz obj =
    Inr ((if rz then remove_zero_weight_vgroups else id)
          (obj\<lparr>vertex_groups :=
                rename_groups (fix_vg_v10 threshold (map snd m) (Max (set (map snd m))))
                  (vertex_groups obj)\<rparr>), True)"
  using assms by (simp add: process_object_v10_def py_max_Max)

lemma process_object_v11_fixed:
  assumes "obj_kind obj = MESH"
    and "find_component components (obj_name obj) = Inr (Some (Component (Some m)))"
    and "m \<noteq> []"
  shows "process_object_v11 components threshold gx rz obj =
    Inr ((if rz then remove_zero_weight_vgroups else id)
          (obj\<lparr>vertex_groups :=
                rename_groups (fix_vg_v11 threshold gx (map snd m) (Max (set (map snd m))))
                  (vertex_groups obj)\<rparr>), True)"
  using assms by (simp add: process_object_v11_def py_max_Max)

lemma scenario_merged: "merged_max_vg scenario_components = Inr 257"
  by code_simp

lemma scenario_global: "global_exceptions 0 scenario_components = Inr []"
  by code_simp

lemma scenario_find:
  "find_component scenario_components ''Component 1'' = Inr (Some (Component (Some [(''a'', 256), (''b'', 257)])))"
  by code_simp

lemma scenario_nonempty: "scenario_components \<noteq> []"
  by (simp add: scenario_components_def)

lemma n257: "py_int ''257'' = Some 257" by code_simp
lemma n258: "py_int ''258'' = Some 258" by code_simp
lemma n5: "py_int ''5'' = Some 5" by code_simp

lemma scenario_rename_v10:
  "rename_groups (fix_vg_v10 1 [256, 257] cm)
     (vertex_groups (scenario_object vs)) = vertex_groups (scenario_object vs)"
  by (simp add: rename_groups_def fix_vg_v10_def scenario_object_def n257 n258 n5)

lemma scenario_rename_v11:
  "rename_groups (fix_vg_v11 1 [] [256, 257] cm)
     (vertex_groups (scenario_object vs)) = vertex_groups (scenario_object vs)"
  by (simp add: rename_groups_def fix_vg_v11_def scenario_object_def n257 n258 n5)

lemma scenario_kind: "obj_kind (scenario_object vs) = MESH" "obj_name (scenario_object vs) = ''Component 1''"
  by (simp_all add: scenario_object_def)

lemma scenario_sc: "wwmi_vg_metadata_path (scenario_scene rz) = Parsed (JObject (Some scenario_components))"
  "wwmi_vg_remove_zero (scenario_scene rz) = rz"
  by (simp_all add: scenario_scene_def)

subsection \<open>C1: the end-to-end scenario\<close>

text \<open>
  C1, as the code has it. On the scenario the merged maximum is 257 and the threshold is
  1, so all three numeric names 257, 258 and 5 lie above the threshold: in both versions
  the loop over the vertex groups changes no name, whatever the vertices are. The operator
  finishes with one processed object, which is the object as it was, after the zero-weight
  sweep when that option is on.
\<close>

theorem scenario_names_kept:
  "execute_v10 (scenario_scene rz) [scenario_object vs] =
     ([if rz then remove_zero_weight_vgroups (scenario_object vs) else scenario_object vs],
      FINISHED 1)
   \<and> execute_v11 (scenario_scene rz) [scenario_object vs] =
     ([if rz then remove_zero_weight_vgroups (scenario_object vs) else scenario_object vs],
      FINISHED 1)"
proof -
  have f: "find_component scenario_components (obj_name (scenario_object vs)) =
      Inr (Some (Component (Some [(''a'', 256), (''b'', 257)])))"
    by (simp add: scenario_kind scenario_find)
  have p10: "process_object_v10 scenario_components 1 rz (scenario_object vs) =
      Inr (if rz then remove_zero_weight_vgroups (scenario_object vs) else scenario_object vs, True)"
    by (simp add: process_object_v10_fixed [OF scenario_kind(1) f] scenario_rename_v10)
  have p11: "process_object_v11 scenario_components 1 [] rz (scenario_object vs) =
      Inr (if rz then remove_zero_weight_vgroups (scenario_object vs) else scenario_object vs, True)"
    by (simp add: process_object_v11_fixed [OF scenario_kind(1) f] scenario_rename_v11)
  show ?thesis
    unfolding execute_v10_loaded [OF scenario_sc(1) scenario_nonempty scenario_merged]
      execute_v11_loaded [OF scenario_sc(1) scenario_nonempty scenario_merged scenario_global]
    by (simp add: p10 p11 finish_def scenario_sc)
qed

text \<open>
  C1, as the claim states it, fails: the group \<open>257\<close> is not renamed to \<open>Check257\<close>.
  The merged maximum is 257, the object is processed with the map of component 1, whose
  maximum is 257, and 257 is a value of that map; yet with the sweep on and every group
  used by a vertex, the names after the run are the names before it, in both versions.
\<close>

theorem scenario_257_counterexample:
  "merged_max_vg scenario_components = Inr 257
   \<and> selects_component scenario_components (scenario_object scenario_vertices)
        [(''a'', 256), (''b'', 257)] 257
   \<and> py_int ''257'' = Some 257 \<and> (257::int) \<in> set (map snd [(''a'', 256), (''b'', 257)])
   \<and> map vg_name (vertex_groups (hd (fst (execute_v10 (scenario_scene True)
       [scenario_object scenario_vertices])))) = [''257'', ''258'', ''5'']
   \<and> map vg_name (vertex_groups (hd (fst (execute_v11 (scenario_scene True)
       [scenario_object scenario_vertices])))) = [''257'', ''258'', ''5'']
   \<and> vg_name (hd (vertex_groups (hd (fst (execute_v10 (scenario_scene True)
       [scenario_object scenario_vertices]))))) \<noteq> ''Check257''
   \<and> vg_name (hd (vertex_groups (hd (fst (execute_v11 (scenario_scene True)
       [scenario_object scenario_vertices]))))) \<noteq> ''Check257''"
  by code_simp

subsection \<open>What int() accepts\<close>

lemma strip_int_keeps_head:
  assumes "\<not> int_space c"
  shows "\<exists>t. strip_int (c # cs) = c # t"
proof -
  have "dropWhile int_space (rev cs @ [c]) = dropWhile int_space (rev cs) @ [c]
      \<or> dropWhile int_space (rev cs @ [c]) = [c]"
    using assms by (simp add: dropWhile_append)
  then obtain zs where "dropWhile int_space (rev cs @ [c]) = zs @ [c]"
    by (metis append_Nil)
  then show ?thesis
    using assms by (simp add: strip_int_def)
qed

lemma valid_body_head: "valid_body (c # t) \<Longrightarrow> is_digit c"
  by (cases t) simp_all

lemma py_int_head:
  assumes "py_int (c # cs) = Some n"
  shows "int_space c \<or> c = CHR ''+'' \<or> c = CHR ''-'' \<or> is_digit c"
proof (rule ccontr)
  assume a: "\<not> ?thesis"
  then obtain t where t: "strip_int (c # cs) = c # t"
    using strip_int_keeps_head by blast
  from a have "\<not> valid_body (c # t)"
    using valid_body_head by blast
  with a t assms show False
    by (simp add: py_int_def)
qed

lemma py_int_Check: "startswith name ''Check'' \<Longrightarrow> py_int name = None"
proof (rule ccontr)
  assume s: "startswith name ''Check''" and "py_int name \<noteq> None"
  then obtain n where n: "py_int name = Some n" by blast
  from s obtain cs where "name = CHR ''C'' # cs"
    by (cases name) (auto simp: startswith_def split: if_splits)
  with n have "int_space CHR ''C'' \<or> CHR ''C'' = CHR ''+'' \<or> CHR ''C'' = CHR ''-'' \<or> is_digit CHR ''C''"
    using py_int_head by blast
  then show False
    by (simp add: int_space_def is_digit_def)
qed

subsection \<open>The loop over the selected objects\<close>

lemma for_selected_length: "length (fst (for_selected f objs)) = length objs"
  by (induction objs) (auto split: sum.splits prod.splits)

lemma for_selected_nth:
  assumes "for_selected f objs = (objs', c, x)" and "k < length objs"
  shows "objs' ! k = objs ! k \<or> (\<exists>b. f (objs ! k) = Inr (objs' ! k, b))"
  using assms
proof (induction objs arbitrary: objs' c x k)
  case Nil
  then show ?case by simp
next
  case (Cons a objs)
  show ?case
  proof (cases "f a")
    case (Inl e)
    with Cons.prems show ?thesis by auto
  next
    case (Inr r)
    obtain rest' n y where r: "for_selected f objs = (rest', n, y)"
      by (cases "for_selected f objs") auto
    with Inr Cons.prems have o: "objs' = fst r # rest'" by auto
    show ?thesis
    proof (cases k)
      case 0
      with o Inr show ?thesis by (cases r) auto
    next
      case (Suc j)
      with Cons.prems have "j < length objs" by simp
      from Cons.IH [OF r this] o Suc show ?thesis by simp
    qed
  qed
qed


lemma for_selected_cong:
  assumes "\<And>obj. obj \<in> set objs \<Longrightarrow> f obj = g obj"
  shows "for_selected f objs = for_selected g objs"
  using assms by (induction objs) (auto split: sum.splits prod.splits)

subsection \<open>The zero-weight sweep\<close>

lemma vg_position_filter:
  assumes "distinct (map vg_id vgs)"
  shows "(case vg_position h vgs of
            None \<Rightarrow> vgs
          | Some p \<Rightarrow> take p vgs @ drop (Suc p) vgs) = filter (\<lambda>g. vg_id g \<noteq> h) vgs"
  using assms
proof (induction vgs)
  case Nil
  show ?case by simp
next
  case (Cons vg rest)
  show ?case
  proof (cases "vg_id vg = h")
    case True
    from Cons.prems have "vg_id vg \<notin> vg_id ` set rest" by simp
    with True have "\<forall>g\<in>set rest. vg_id g \<noteq> h" by blast
    then have "filter (\<lambda>g. vg_id g \<noteq> h) rest = rest" by (simp add: filter_id_conv)
    with True show ?thesis by simp
  next
    case False
    with Cons show ?thesis by (cases "vg_position h rest") simp_all
  qed
qed

lemma vertex_groups_remove_groups:
  assumes "distinct (map vg_id (vertex_groups obj))"
  shows "vertex_groups (vertex_groups_remove obj vg) =
    filter (\<lambda>g. vg_id g \<noteq> vg_id vg) (vertex_groups obj)"
  using vg_position_filter [OF assms, of "vg_id vg"]
  by (cases "vg_position (vg_id vg) (vertex_groups obj)") (simp_all add: vertex_groups_remove_def)

lemma foldl_remove_groups:
  assumes "distinct (map vg_id (vertex_groups obj))"
  shows "vertex_groups (foldl vertex_groups_remove obj ds) =
    filter (\<lambda>g. vg_id g \<notin> vg_id ` set ds) (vertex_groups obj)"
  using assms
proof (induction ds arbitrary: obj)
  case Nil
  show ?case by simp
next
  case (Cons d ds)
  have r: "vertex_groups (vertex_groups_remove obj d) =
      filter (\<lambda>g. vg_id g \<noteq> vg_id d) (vertex_groups obj)"
    by (rule vertex_groups_remove_groups [OF Cons.prems])
  have "distinct (map vg_id (vertex_groups (vertex_groups_remove obj d)))"
    unfolding r using Cons.prems by (rule distinct_map_filter)
  from Cons.IH [OF this] r show ?case
    by (auto intro: filter_cong)
qed

lemma collect_unused_ids:
  "vg_id ` set (collect_unused vs i vgs) =
     {vg_id (vgs ! j) | j. j < length vgs \<and> \<not> vg_used vs (i + j)}"
proof (induction vgs arbitrary: i)
  case Nil
  show ?case by simp
next
  case (Cons vg rest)
  have split: "{vg_id ((vg # rest) ! j) | j. j < length (vg # rest) \<and> \<not> vg_used vs (i + j)} =
      (if vg_used vs i then {} else {vg_id vg}) \<union>
      {vg_id (rest ! j) | j. j < length rest \<and> \<not> vg_used vs (Suc i + j)}" (is "?L = ?R")
  proof (rule set_eqI)
    fix x
    show "x \<in> ?L \<longleftrightarrow> x \<in> ?R"
    proof
      assume "x \<in> ?L"
      then obtain j where j: "x = vg_id ((vg # rest) ! j)" "j < length (vg # rest)"
        "\<not> vg_used vs (i + j)" by blast
      then show "x \<in> ?R" by (cases j) auto
    next
      assume "x \<in> ?R"
      then consider "\<not> vg_used vs i" "x = vg_id vg"
        | j where "x = vg_id (rest ! j)" "j < length rest" "\<not> vg_used vs (Suc i + j)"
        by (auto split: if_splits)
      then show "x \<in> ?L"
      proof cases
        case 1
        then have "x = vg_id ((vg # rest) ! 0) \<and> 0 < length (vg # rest) \<and> \<not> vg_used vs (i + 0)"
          by simp
        then show ?thesis by blast
      next
        case 2
        then have "x = vg_id ((vg # rest) ! Suc j) \<and> Suc j < length (vg # rest)
            \<and> \<not> vg_used vs (i + Suc j)" by simp
        then show ?thesis by blast
      qed
    qed
  qed
  show ?case unfolding split using Cons.IH [of "Suc i"] by auto
qed

lemma sweep_groups:
  assumes "distinct (map vg_id (vertex_groups obj))"
  shows "vertex_groups (remove_zero_weight_vgroups obj) =
    filter (\<lambda>g. vg_id g \<notin> vg_id ` set (collect_unused (vertices obj) 0 (vertex_groups obj)))
      (vertex_groups obj)"
  by (simp add: remove_zero_weight_vgroups_def foldl_remove_groups [OF assms])

lemma vertex_groups_remove_subset:
  "set (vertex_groups (vertex_groups_remove obj vg)) \<subseteq> set (vertex_groups obj)"
proof (cases "vg_position (vg_id vg) (vertex_groups obj)")
  case None
  then show ?thesis by (simp add: vertex_groups_remove_def)
next
  case (Some p)
  have "set (take p (vertex_groups obj)) \<subseteq> set (vertex_groups obj)"
    "set (drop (Suc p) (vertex_groups obj)) \<subseteq> set (vertex_groups obj)"
    by (rule set_take_subset, rule set_drop_subset)
  with Some show ?thesis by (simp add: vertex_groups_remove_def)
qed

lemma foldl_remove_subset:
  "set (vertex_groups (foldl vertex_groups_remove obj ds)) \<subseteq> set (vertex_groups obj)"
proof (induction ds arbitrary: obj)
  case Nil
  show ?case by simp
next
  case (Cons d ds)
  from Cons.IH [of "vertex_groups_remove obj d"] vertex_groups_remove_subset [of obj d]
  show ?case by auto
qed

lemma sweep_subset:
  "set (vertex_groups (remove_zero_weight_vgroups obj)) \<subseteq> set (vertex_groups obj)"
  by (simp add: remove_zero_weight_vgroups_def foldl_remove_subset)

lemma vg_used_iff: "vg_used vs i \<longleftrightarrow> (\<exists>v\<in>set vs. \<exists>g\<in>set v. fst g = i)"
  by (simp add: vg_used_def list_ex_iff)

lemma vg_used_weights:
  "vg_used (map (map (\<lambda>g. (fst g, f (snd g)))) vs) i = vg_used vs i"
  by (auto simp: vg_used_iff)

lemma collect_unused_weights:
  "collect_unused (map (map (\<lambda>g. (fst g, f (snd g)))) vs) i vgs = collect_unused vs i vgs"
  by (induction vgs arbitrary: i) (simp_all add: vg_used_weights)

lemma nth_id_unique:
  assumes "distinct (map vg_id vgs)" and "i < length vgs" and "j < length vgs"
    and "vg_id (vgs ! i) = vg_id (vgs ! j)"
  shows "i = j"
  using assms by (metis distinct_conv_nth length_map nth_map)

lemma unused_id_iff:
  assumes "distinct (map vg_id vgs)" and "i < length vgs"
  shows "vg_id (vgs ! i) \<in> vg_id ` set (collect_unused vs 0 vgs) \<longleftrightarrow> \<not> vg_used vs i"
proof
  assume "vg_id (vgs ! i) \<in> vg_id ` set (collect_unused vs 0 vgs)"
  then obtain j where j: "vg_id (vgs ! i) = vg_id (vgs ! j)" "j < length vgs" "\<not> vg_used vs j"
    unfolding collect_unused_ids by auto
  with assms have "i = j" using nth_id_unique by blast
  with j show "\<not> vg_used vs i" by simp
next
  assume "\<not> vg_used vs i"
  with assms(2) show "vg_id (vgs ! i) \<in> vg_id ` set (collect_unused vs 0 vgs)"
    unfolding collect_unused_ids by auto
qed

lemma filter_zip_fst:
  "length ys = length xs \<Longrightarrow>
     filter P xs = map fst (filter (\<lambda>p. P (fst p)) (zip xs ys))"
  by (induction xs ys rule: list_induct2') simp_all

lemma sweep_survivors:
  assumes "distinct (map vg_id (vertex_groups obj))"
  shows "vertex_groups (remove_zero_weight_vgroups obj) =
    map fst (filter (\<lambda>p. vg_used (vertices obj) (snd p))
      (zip (vertex_groups obj) [0..<length (vertex_groups obj)]))"
proof -
  let ?gs = "vertex_groups obj"
  let ?U = "vg_id ` set (collect_unused (vertices obj) 0 ?gs)"
  have "filter (\<lambda>g. vg_id g \<notin> ?U) ?gs =
      map fst (filter (\<lambda>p. vg_id (fst p) \<notin> ?U) (zip ?gs [0..<length ?gs]))"
    by (rule filter_zip_fst) simp
  also have "filter (\<lambda>p. vg_id (fst p) \<notin> ?U) (zip ?gs [0..<length ?gs]) =
      filter (\<lambda>p. vg_used (vertices obj) (snd p)) (zip ?gs [0..<length ?gs])"
  proof (rule filter_cong [OF refl])
    fix p
    assume "p \<in> set (zip ?gs [0..<length ?gs])"
    then obtain k where k: "k < length ?gs" "p = (?gs ! k, k)"
      by (auto simp: set_zip)
    with unused_id_iff [OF assms k(1), of "vertices obj"]
    show "(vg_id (fst p) \<notin> ?U) = vg_used (vertices obj) (snd p)" by simp
  qed
  finally show ?thesis
    by (simp add: sweep_groups [OF assms])
qed

subsection \<open>C8: which groups the sweep removes\<close>

text \<open>
  C8. The sweep of an object whose vertex groups are distinct host objects. The group of
  index \<open>i\<close> is removed exactly when no vertex has a membership with that index; the
  groups that stay are, in their order and with their names, the groups whose index some
  vertex lists, where the indices are those before any removal (the removals come after
  the scan); and replacing every weight \<open>w\<close> by \<open>f w\<close> changes nothing, so a membership of
  weight zero keeps its group.
\<close>

theorem zero_weight_sweep:
  assumes "distinct (map vg_id (vertex_groups obj))"
  shows "(\<forall>i < length (vertex_groups obj).
            (vg_id (vertex_groups obj ! i)
               \<notin> vg_id ` set (vertex_groups (remove_zero_weight_vgroups obj)))
            \<longleftrightarrow> \<not> (\<exists>v\<in>set (vertices obj). \<exists>g\<in>set v. fst g = i))
    \<and> vertex_groups (remove_zero_weight_vgroups obj) =
        map fst (filter (\<lambda>p. \<exists>v\<in>set (vertices obj). \<exists>g\<in>set v. fst g = snd p)
          (zip (vertex_groups obj) [0..<length (vertex_groups obj)]))
    \<and> vertex_groups (remove_zero_weight_vgroups
          (obj\<lparr>vertices := map (map (\<lambda>g. (fst g, f (snd g)))) (vertices obj)\<rparr>)) =
        vertex_groups (remove_zero_weight_vgroups obj)"
proof (intro conjI allI impI)
  fix i
  assume i: "i < length (vertex_groups obj)"
  let ?U = "vg_id ` set (collect_unused (vertices obj) 0 (vertex_groups obj))"
  have "vg_id (vertex_groups obj ! i) \<in> vg_id ` set (vertex_groups (remove_zero_weight_vgroups obj))
      \<longleftrightarrow> vg_id (vertex_groups obj ! i) \<notin> ?U"
  proof
    assume "vg_id (vertex_groups obj ! i)
        \<in> vg_id ` set (vertex_groups (remove_zero_weight_vgroups obj))"
    then obtain x where "x \<in> set (vertex_groups obj)" "vg_id x \<notin> ?U"
        "vg_id (vertex_groups obj ! i) = vg_id x"
      unfolding sweep_groups [OF assms] by auto
    then show "vg_id (vertex_groups obj ! i) \<notin> ?U" by simp
  next
    assume "vg_id (vertex_groups obj ! i) \<notin> ?U"
    with i have "vertex_groups obj ! i \<in> set (filter (\<lambda>g. vg_id g \<notin> ?U) (vertex_groups obj))"
      by simp
    then show "vg_id (vertex_groups obj ! i)
        \<in> vg_id ` set (vertex_groups (remove_zero_weight_vgroups obj))"
      unfolding sweep_groups [OF assms] by (rule imageI)
  qed
  then show "(vg_id (vertex_groups obj ! i)
               \<notin> vg_id ` set (vertex_groups (remove_zero_weight_vgroups obj)))
            \<longleftrightarrow> \<not> (\<exists>v\<in>set (vertices obj). \<exists>g\<in>set v. fst g = i)"
    using unused_id_iff [OF assms i, of "vertices obj"] by (simp add: vg_used_iff)
next
  show "vertex_groups (remove_zero_weight_vgroups obj) =
        map fst (filter (\<lambda>p. \<exists>v\<in>set (vertices obj). \<exists>g\<in>set v. fst g = snd p)
          (zip (vertex_groups obj) [0..<length (vertex_groups obj)]))"
    using sweep_survivors [OF assms] by (simp add: vg_used_iff)
next
  let ?obj' = "obj\<lparr>vertices := map (map (\<lambda>g. (fst g, f (snd g)))) (vertices obj)\<rparr>"
  have "distinct (map vg_id (vertex_groups ?obj'))" using assms by simp
  from sweep_groups [OF this] sweep_groups [OF assms]
  show "vertex_groups (remove_zero_weight_vgroups ?obj') =
      vertex_groups (remove_zero_weight_vgroups obj)"
    by (simp add: collect_unused_weights)
qed

theorem zero_weight_sweep_witness:
  "distinct (map vg_id (vertex_groups sweep_example))
   \<and> vertex_groups (remove_zero_weight_vgroups sweep_example) = [\<lparr>vg_id = 11, vg_name = ''8''\<rparr>]
   \<and> vg_id (vertex_groups sweep_example ! 0)
        \<notin> vg_id ` set (vertex_groups (remove_zero_weight_vgroups sweep_example))
   \<and> vg_id (vertex_groups sweep_example ! 1)
        \<in> vg_id ` set (vertex_groups (remove_zero_weight_vgroups sweep_example))
   \<and> vertex_groups (remove_zero_weight_vgroups
        (sweep_example\<lparr>vertices := map (map (\<lambda>g. (fst g, (\<lambda>w. w + 1) (snd g))))
           (vertices sweep_example)\<rparr>)) = [\<lparr>vg_id = 11, vg_name = ''8''\<rparr>]"
proof -
  have d: "distinct (map vg_id (vertex_groups sweep_example))"
    by (simp add: sweep_example_def)
  have v: "vertex_groups (remove_zero_weight_vgroups sweep_example) = [\<lparr>vg_id = 11, vg_name = ''8''\<rparr>]"
    by code_simp
  from zero_weight_sweep [OF d, of "\<lambda>w. w + 1"] d v show ?thesis
    by (simp add: sweep_example_def)
qed

subsection \<open>Where the names after a run come from\<close>

lemma py_max_nonempty: "py_max xs = Inr m \<Longrightarrow> xs \<noteq> []"
  by (cases xs) (simp_all add: py_max_def)



lemma process_object_v10_cases:
  assumes "process_object_v10 components threshold rz obj = Inr (obj', b)"
  shows "obj' = obj \<or> (\<exists>ex cm. obj' = (if rz then remove_zero_weight_vgroups else id)
          (obj\<lparr>vertex_groups :=
                rename_groups (fix_vg_v10 threshold ex cm) (vertex_groups obj)\<rparr>))"
  using assms
  by (auto simp: process_object_v10_def Let_def split: if_splits sum.splits option.splits)

lemma process_object_v11_cases:
  assumes "process_object_v11 components threshold gx rz obj = Inr (obj', b)"
  shows "obj' = obj \<or> (\<exists>ex cm. obj' = (if rz then remove_zero_weight_vgroups else id)
          (obj\<lparr>vertex_groups :=
                rename_groups (fix_vg_v11 threshold gx ex cm) (vertex_groups obj)\<rparr>))"
  using assms
  by (auto simp: process_object_v11_def Let_def split: if_splits sum.splits option.splits)

lemma renamed_group:
  assumes "g' \<in> set (vertex_groups ((if rz then remove_zero_weight_vgroups else id)
      (obj\<lparr>vertex_groups := rename_groups body (vertex_groups obj)\<rparr>)))"
  shows "\<exists>g\<in>set (vertex_groups obj). vg_id g = vg_id g' \<and> vg_name g' = snd (body (vg_name g))"
proof -
  let ?obj1 = "obj\<lparr>vertex_groups := rename_groups body (vertex_groups obj)\<rparr>"
  have "g' \<in> set (vertex_groups ?obj1)"
    using assms sweep_subset [of ?obj1] by (cases rz) auto
  then show ?thesis by (auto simp: rename_groups_def)
qed

lemma same_id_same_group:
  assumes "distinct (map vg_id vgs)" and "g \<in> set vgs" and "h \<in> set vgs" and "vg_id g = vg_id h"
  shows "g = h"
  using assms by (meson distinct_map inj_on_def)

lemma finish_objs: "fst (finish r) = fst r"
  by (cases r) (simp add: finish_def)


lemma execute_v10_length: "length (fst (execute_v10 sc objs)) = length objs"
  by (simp add: execute_v10_def finish_objs for_selected_length
      split: metadata_source.splits json_doc.splits option.splits sum.splits)

lemma execute_v11_length: "length (fst (execute_v11 sc objs)) = length objs"
  by (simp add: execute_v11_def finish_objs for_selected_length
      split: metadata_source.splits json_doc.splits option.splits sum.splits)

lemma execute_v10_group:
  assumes "wwmi_vg_metadata_path sc = Parsed (JObject (Some components))"
    and "merged_max_vg components = Inr mm"
    and "k < length objs"
    and "g' \<in> set (vertex_groups (fst (execute_v10 sc objs) ! k))"
  shows "\<exists>g\<in>set (vertex_groups (objs ! k)). vg_id g = vg_id g' \<and>
    (vg_name g' = vg_name g
     \<or> (\<exists>ex cm. vg_name g' = snd (fix_vg_v10 (mm - 256) ex cm (vg_name g))))"
proof (cases "components = []")
  case True
  with assms show ?thesis by (auto simp: execute_v10_def)
next
  case False
  let ?f = "process_object_v10 components (mm - 256) (wwmi_vg_remove_zero sc)"
  obtain objs' c x where r: "for_selected ?f objs = (objs', c, x)"
    by (cases "for_selected ?f objs") auto
  with assms False have e: "fst (execute_v10 sc objs) = objs'"
    by (simp add: execute_v10_loaded finish_objs)
  from for_selected_nth [OF r assms(3)]
  consider "objs' ! k = objs ! k" | b where "?f (objs ! k) = Inr (objs' ! k, b)" by blast
  then show ?thesis
  proof cases
    case 1
    with assms(4) e show ?thesis by auto
  next
    case 2
    from process_object_v10_cases [OF 2]
    consider "objs' ! k = objs ! k"
      | ex cm where "objs' ! k = (if wwmi_vg_remove_zero sc then remove_zero_weight_vgroups else id)
          ((objs ! k)\<lparr>vertex_groups :=
                rename_groups (fix_vg_v10 (mm - 256) ex cm) (vertex_groups (objs ! k))\<rparr>)"
      by blast
    then show ?thesis
    proof cases
      case 1
      with assms(4) e show ?thesis by auto
    next
      case 2
      with assms(4) e renamed_group [where g' = g' and rz = "wwmi_vg_remove_zero sc" and obj = "objs ! k"
          and body = "fix_vg_v10 (mm - 256) ex cm"]
      obtain h where "h \<in> set (vertex_groups (objs ! k))" "vg_id h = vg_id g'"
        "vg_name g' = snd (fix_vg_v10 (mm - 256) ex cm (vg_name h))" by auto
      then show ?thesis by blast
    qed
  qed
qed

lemma execute_v11_group:
  assumes "wwmi_vg_metadata_path sc = Parsed (JObject (Some components))"
    and "merged_max_vg components = Inr mm"
    and "k < length objs"
    and "g' \<in> set (vertex_groups (fst (execute_v11 sc objs) ! k))"
  shows "\<exists>g\<in>set (vertex_groups (objs ! k)). vg_id g = vg_id g' \<and>
    (vg_name g' = vg_name g
     \<or> (\<exists>gx ex cm. vg_name g' = snd (fix_vg_v11 (mm - 256) gx ex cm (vg_name g))))"
proof (cases "components = [] \<or> (\<exists>e. global_exceptions 0 components = Inl e)")
  case True
  with assms(1,2) have "fst (execute_v11 sc objs) = objs"
    by (auto simp: execute_v11_def)
  with assms(4) show ?thesis by auto
next
  case False
  then obtain gx where gx: "global_exceptions 0 components = Inr gx" and ne: "components \<noteq> []"
    by (cases "global_exceptions 0 components") auto
  let ?f = "process_object_v11 components (mm - 256) gx (wwmi_vg_remove_zero sc)"
  obtain objs' c x where r: "for_selected ?f objs = (objs', c, x)"
    by (cases "for_selected ?f objs") auto
  with assms gx ne have e: "fst (execute_v11 sc objs) = objs'"
    by (simp add: execute_v11_loaded finish_objs)
  from for_selected_nth [OF r assms(3)]
  consider "objs' ! k = objs ! k" | b where "?f (objs ! k) = Inr (objs' ! k, b)" by blast
  then show ?thesis
  proof cases
    case 1
    with assms(4) e show ?thesis by auto
  next
    case 2
    from process_object_v11_cases [OF 2]
    consider "objs' ! k = objs ! k"
      | ex cm where "objs' ! k = (if wwmi_vg_remove_zero sc then remove_zero_weight_vgroups else id)
          ((objs ! k)\<lparr>vertex_groups :=
                rename_groups (fix_vg_v11 (mm - 256) gx ex cm) (vertex_groups (objs ! k))\<rparr>)"
      by blast
    then show ?thesis
    proof cases
      case 1
      with assms(4) e show ?thesis by auto
    next
      case 2
      with assms(4) e renamed_group [where g' = g' and rz = "wwmi_vg_remove_zero sc" and obj = "objs ! k"
          and body = "fix_vg_v11 (mm - 256) gx ex cm"]
      obtain h where "h \<in> set (vertex_groups (objs ! k))" "vg_id h = vg_id g'"
        "vg_name g' = snd (fix_vg_v11 (mm - 256) gx ex cm (vg_name h))" by auto
      then show ?thesis by blast
    qed
  qed
qed



subsection \<open>The branches of the loop body\<close>

lemma fix_vg_v10_not_numeric:
  "py_int name = None \<Longrightarrow> fix_vg_v10 th ex cm name = (NotNumeric, name)"
  by (simp add: fix_vg_v10_def)

lemma fix_vg_v11_not_numeric:
  "py_int name = None \<Longrightarrow> fix_vg_v11 th gx ex cm name = (NotNumeric, name)"
  by (simp add: fix_vg_v11_def)

lemma fix_vg_v10_above:
  "py_int name = Some n \<Longrightarrow> n > th \<Longrightarrow> fix_vg_v10 th ex cm name = (AboveThreshold, name)"
  by (simp add: fix_vg_v10_def)

lemma fix_vg_v11_above:
  "py_int name = Some n \<Longrightarrow> n > th \<Longrightarrow> fix_vg_v11 th gx ex cm name = (AboveThreshold, name)"
  by (simp add: fix_vg_v11_def)

lemma py_int_no_Check: "py_int name = Some n \<Longrightarrow> \<not> startswith name ''Check''"
  using py_int_Check by fastforce

lemma fix_vg_v10_exception:
  assumes "py_int name = Some n" and "n \<le> th" and "n \<in> set ex"
  shows "fix_vg_v10 th ex cm name =
    (if cm \<ge> 256 then (MarkedCheck, ''Check'' @ name) else (ExceptionKept, name))"
  using assms py_int_no_Check [OF assms(1)] by (simp add: fix_vg_v10_def)

lemma fix_vg_v11_exception:
  assumes "py_int name = Some n" and "n \<le> th" and "n \<in> set gx \<or> n \<in> set ex"
  shows "fix_vg_v11 th gx ex cm name =
    (if cm \<ge> 256 then (MarkedCheck, ''Check'' @ name) else (ExceptionKept, name))"
  using assms py_int_no_Check [OF assms(1)] by (simp add: fix_vg_v11_def)



lemma fix_vg_v10_never_already:
  "fst (fix_vg_v10 th ex cm name) \<noteq> AlreadyCheck"
proof (cases "py_int name")
  case None
  then show ?thesis by (simp add: fix_vg_v10_def)
next
  case (Some n)
  from py_int_no_Check [OF this] Some show ?thesis by (simp add: fix_vg_v10_def)
qed

lemma fix_vg_v11_never_already:
  "fst (fix_vg_v11 th gx ex cm name) \<noteq> AlreadyCheck"
proof (cases "py_int name")
  case None
  then show ?thesis by (simp add: fix_vg_v11_def)
next
  case (Some n)
  from py_int_no_Check [OF this] Some show ?thesis by (simp add: fix_vg_v11_def)
qed

lemma startswith_append: "startswith (p @ s) p"
  by (simp add: startswith_def)

subsection \<open>C9: the branch "already has Check"\<close>

text \<open>
  C9. In both versions, a vertex group that reaches the exception branch (the branches
  that print "exception / Check", "already has Check" or "exception, CompMaxVG<256") has a
  name that \<open>int\<close> parsed; a name that \<open>int\<close> parses does not start with \<open>Check\<close>; so
  the branch "already has Check" is never taken. A name that starts with \<open>Check\<close>, such
  as \<open>Check\<close> followed by digits, does not parse, takes the branch "not numeric" and keeps
  its name: that skip is what prevents a second prefix.
\<close>

theorem already_check_unreachable:
  "(fst (fix_vg_v10 th ex cm name) \<in> {MarkedCheck, AlreadyCheck, ExceptionKept}
      \<longrightarrow> (\<exists>n. py_int name = Some n))
   \<and> (fst (fix_vg_v11 th gx ex cm name) \<in> {MarkedCheck, AlreadyCheck, ExceptionKept}
      \<longrightarrow> (\<exists>n. py_int name = Some n))
   \<and> ((\<exists>n. py_int name = Some n) \<longrightarrow> \<not> startswith name ''Check'')
   \<and> fst (fix_vg_v10 th ex cm name) \<noteq> AlreadyCheck
   \<and> fst (fix_vg_v11 th gx ex cm name) \<noteq> AlreadyCheck
   \<and> py_int (''Check'' @ digits) = None
   \<and> fix_vg_v10 th ex cm (''Check'' @ digits) = (NotNumeric, ''Check'' @ digits)
   \<and> fix_vg_v11 th gx ex cm (''Check'' @ digits) = (NotNumeric, ''Check'' @ digits)"
proof -
  have c: "py_int (''Check'' @ digits) = None"
    by (rule py_int_Check [OF startswith_append])
  have a: "fst (fix_vg_v10 th ex cm name) \<in> {MarkedCheck, AlreadyCheck, ExceptionKept}
      \<longrightarrow> (\<exists>n. py_int name = Some n)"
    by (cases "py_int name") (simp_all add: fix_vg_v10_def)
  have b: "fst (fix_vg_v11 th gx ex cm name) \<in> {MarkedCheck, AlreadyCheck, ExceptionKept}
      \<longrightarrow> (\<exists>n. py_int name = Some n)"
    by (cases "py_int name") (simp_all add: fix_vg_v11_def)
  have d: "(\<exists>n. py_int name = Some n) \<longrightarrow> \<not> startswith name ''Check''"
    using py_int_no_Check by blast
  from a b c d fix_vg_v10_never_already [of th ex cm name]
    fix_vg_v11_never_already [of th gx ex cm name]
    fix_vg_v10_not_numeric [OF c, of th ex cm] fix_vg_v11_not_numeric [OF c, of th gx ex cm]
  show ?thesis by blast
qed

theorem already_check_unreachable_witness:
  "fst (fix_vg_v10 344 [5, 600] 600 ''5'') = MarkedCheck
   \<and> fst (fix_vg_v11 344 [9] [5, 600] 600 ''9'') = MarkedCheck
   \<and> py_int ''5'' = Some 5
   \<and> \<not> startswith ''5'' ''Check''
   \<and> fix_vg_v10 344 [5, 600] 600 (snd (fix_vg_v10 344 [5, 600] 600 ''5'')) = (NotNumeric, ''Check5'')
   \<and> fix_vg_v11 344 [9] [5, 600] 600 (snd (fix_vg_v11 344 [9] [5, 600] 600 ''9''))
       = (NotNumeric, ''Check9'')"
proof -
  have p: "py_int ''5'' = Some 5" "py_int ''9'' = Some 9" by code_simp+
  have m: "fix_vg_v10 344 [5, 600] 600 ''5'' = (MarkedCheck, ''Check5'')"
    "fix_vg_v11 344 [9] [5, 600] 600 ''9'' = (MarkedCheck, ''Check9'')"
    by (simp_all add: fix_vg_v10_exception [OF p(1)] fix_vg_v11_exception [OF p(2)])
  from already_check_unreachable [of 344 "[5, 600]" 600 "''5''" "[9]" "''5''"]
    already_check_unreachable [of 344 "[5, 600]" 600 "''5''" "[9]" "''9''"] p m
  show ?thesis by simp
qed

subsection \<open>Runs on metadata that does not load\<close>







subsection \<open>The example run\<close>

lemma example_loaded:
  "wwmi_vg_metadata_path example_scene = Parsed (JObject (Some example_components))"
  "merged_max_vg example_components = Inr 600"
  "global_exceptions 0 example_components = Inr [9]"
  by (simp add: example_scene_def, code_simp, code_simp)



lemma example_run_v10:
  "execute_v10 example_scene example_objects =
    ([example_object_0\<lparr>vertex_groups :=
        [\<lparr>vg_id = 0, vg_name = ''Check05''\<rparr>, \<lparr>vg_id = 1, vg_name = ''263''\<rparr>,
         \<lparr>vg_id = 2, vg_name = ''400''\<rparr>, \<lparr>vg_id = 3, vg_name = ''hand''\<rparr>,
         \<lparr>vg_id = 4, vg_name = ''265''\<rparr>]\<rparr>,
      example_object_1\<lparr>vertex_groups :=
        [\<lparr>vg_id = 0, vg_name = ''1''\<rparr>, \<lparr>vg_id = 1, vg_name = ''259''\<rparr>]\<rparr>], FINISHED 2)"
  by code_simp

lemma example_run_v11:
  "execute_v11 example_scene example_objects =
    ([example_object_0\<lparr>vertex_groups :=
        [\<lparr>vg_id = 0, vg_name = ''Check05''\<rparr>, \<lparr>vg_id = 1, vg_name = ''263''\<rparr>,
         \<lparr>vg_id = 2, vg_name = ''400''\<rparr>, \<lparr>vg_id = 3, vg_name = ''hand''\<rparr>,
         \<lparr>vg_id = 4, vg_name = ''Check9''\<rparr>]\<rparr>,
      example_object_1\<lparr>vertex_groups :=
        [\<lparr>vg_id = 0, vg_name = ''1''\<rparr>, \<lparr>vg_id = 1, vg_name = ''259''\<rparr>]\<rparr>], FINISHED 2)"
  by code_simp




subsection \<open>C7: the offset of 256 and the names that do not parse\<close>




subsection \<open>C3: the Check marker on exception groups\<close>




subsection \<open>The merged maximum\<close>

lemma all_vg_values_set:
  "all_vg_values cs = Inr vs \<Longrightarrow>
     set vs = {v. \<exists>c\<in>set cs. \<exists>kv. comp_vg_map c = Some kv \<and> v \<in> snd ` set kv}"
proof (induction cs arbitrary: vs)
  case Nil
  then show ?case by simp
next
  case (Cons c cs)
  from Cons.prems obtain kv ws where kv: "comp_vg_map c = Some kv"
    and ws: "all_vg_values cs = Inr ws" and vs: "vs = map snd kv @ ws"
    by (auto split: option.splits sum.splits)
  from Cons.IH [OF ws] kv vs show ?case by auto
qed

lemma all_vg_values_total:
  "\<forall>c\<in>set cs. comp_vg_map c \<noteq> None \<Longrightarrow> \<exists>vs. all_vg_values cs = Inr vs"
  by (induction cs) (auto split: option.splits sum.splits)

lemma merged_max_vg_total:
  assumes "\<forall>c\<in>set cs. comp_vg_map c \<noteq> None"
    and "\<exists>c\<in>set cs. \<exists>kv. comp_vg_map c = Some kv \<and> kv \<noteq> []"
  shows "\<exists>mm. merged_max_vg cs = Inr mm"
proof -
  from all_vg_values_total [OF assms(1)] obtain vs where vs: "all_vg_values cs = Inr vs" by blast
  from assms(2) obtain c kv where "c \<in> set cs" "comp_vg_map c = Some kv" "kv \<noteq> []" by blast
  then obtain v where "v \<in> snd ` set kv" by (cases kv) auto
  with \<open>c \<in> set cs\<close> \<open>comp_vg_map c = Some kv\<close> have "v \<in> set vs"
    unfolding all_vg_values_set [OF vs] by blast
  then have "vs \<noteq> []" by auto
  with vs show ?thesis by (simp add: merged_max_vg_def py_max_Max)
qed

lemma merged_max_vg_is_max:
  assumes "merged_max_vg cs = Inr mm"
  shows "\<exists>c\<in>set cs. \<exists>kv. comp_vg_map c = Some kv \<and> mm \<in> snd ` set kv"
    and "\<forall>c\<in>set cs. \<forall>kv. comp_vg_map c = Some kv \<longrightarrow> (\<forall>v\<in>snd ` set kv. v \<le> mm)"
proof -
  from assms obtain vs where vs: "all_vg_values cs = Inr vs" and m: "py_max vs = Inr mm"
    by (auto simp: merged_max_vg_def split: sum.splits)
  from m have ne: "vs \<noteq> []" by (rule py_max_nonempty)
  with m have mm: "mm = Max (set vs)" by (simp add: py_max_Max)
  from ne have "Max (set vs) \<in> set vs" by (intro Max_in) simp_all
  with mm show "\<exists>c\<in>set cs. \<exists>kv. comp_vg_map c = Some kv \<and> mm \<in> snd ` set kv"
    unfolding all_vg_values_set [OF vs] by blast
  show "\<forall>c\<in>set cs. \<forall>kv. comp_vg_map c = Some kv \<longrightarrow> (\<forall>v\<in>snd ` set kv. v \<le> mm)"
  proof (intro ballI allI impI)
    fix c kv v
    assume "c \<in> set cs" "comp_vg_map c = Some kv" "v \<in> snd ` set kv"
    then have "v \<in> set vs" unfolding all_vg_values_set [OF vs] by blast
    then show "v \<le> mm" unfolding mm by (intro Max_ge) simp_all
  qed
qed

lemma above_threshold_kept_v10:
  assumes "wwmi_vg_metadata_path sc = Parsed (JObject (Some components))"
    and "merged_max_vg components = Inr mm"
    and "k < length objs"
    and "distinct (map vg_id (vertex_groups (objs ! k)))"
    and "g \<in> set (vertex_groups (objs ! k))"
    and "py_int (vg_name g) = Some n" and "n > mm - 256"
    and "g' \<in> set (vertex_groups (fst (execute_v10 sc objs) ! k))"
    and "vg_id g' = vg_id g"
  shows "vg_name g' = vg_name g"
proof -
  from execute_v10_group [OF assms(1,2,3,8)]
  obtain h where h: "h \<in> set (vertex_groups (objs ! k))" "vg_id h = vg_id g'"
    "vg_name g' = vg_name h
      \<or> (\<exists>ex cm. vg_name g' = snd (fix_vg_v10 (mm - 256) ex cm (vg_name h)))"
    by blast
  with assms(4,5,9) have "h = g" using same_id_same_group by metis
  with h(3) assms(6,7) show ?thesis by (auto simp: fix_vg_v10_above)
qed

lemma above_threshold_kept_v11:
  assumes "wwmi_vg_metadata_path sc = Parsed (JObject (Some components))"
    and "merged_max_vg components = Inr mm"
    and "k < length objs"
    and "distinct (map vg_id (vertex_groups (objs ! k)))"
    and "g \<in> set (vertex_groups (objs ! k))"
    and "py_int (vg_name g) = Some n" and "n > mm - 256"
    and "g' \<in> set (vertex_groups (fst (execute_v11 sc objs) ! k))"
    and "vg_id g' = vg_id g"
  shows "vg_name g' = vg_name g"
proof -
  from execute_v11_group [OF assms(1,2,3,8)]
  obtain h where h: "h \<in> set (vertex_groups (objs ! k))" "vg_id h = vg_id g'"
    "vg_name g' = vg_name h
      \<or> (\<exists>gx ex cm. vg_name g' = snd (fix_vg_v11 (mm - 256) gx ex cm (vg_name h)))"
    by blast
  with assms(4,5,9) have "h = g" using same_id_same_group by metis
  with h(3) assms(6,7) show ?thesis by (auto simp: fix_vg_v11_above)
qed

lemma scenario_run:
  "execute_v10 (scenario_scene True) [scenario_object scenario_vertices] =
     ([scenario_object scenario_vertices], FINISHED 1)"
  "execute_v11 (scenario_scene True) [scenario_object scenario_vertices] =
     ([scenario_object scenario_vertices], FINISHED 1)"
  by code_simp+

subsection \<open>C2: the merged maximum and the threshold\<close>

text \<open>
  C2. When every component has a \<open>vg_map\<close> and some \<open>vg_map\<close> has a value, the merged
  maximum is computed. A computed merged maximum \<open>mm\<close> is a value of some component's
  \<open>vg_map\<close> and no value of any component's \<open>vg_map\<close> is larger. Both versions run their
  loop over the selected objects with the threshold \<open>mm - 256\<close>. And in every run on such
  metadata, a vertex group \<open>g\<close> of the \<open>k\<close>-th selected object (whose groups are distinct
  host objects) with a name that parses as \<open>n > mm - 256\<close> keeps its name: every group
  \<open>g'\<close> of that object after the run that is the same host object is named as \<open>g\<close> was.
  No hypothesis mentions an exception set.
\<close>

theorem merged_max_and_threshold:
  "((\<forall>c\<in>set components. comp_vg_map c \<noteq> None)
       \<and> (\<exists>c\<in>set components. \<exists>kv. comp_vg_map c = Some kv \<and> kv \<noteq> [])
     \<longrightarrow> (\<exists>mm. merged_max_vg components = Inr mm))
   \<and> (merged_max_vg components = Inr mm \<longrightarrow>
        (\<exists>c\<in>set components. \<exists>kv. comp_vg_map c = Some kv \<and> mm \<in> snd ` set kv)
      \<and> (\<forall>c\<in>set components. \<forall>kv. comp_vg_map c = Some kv \<longrightarrow> (\<forall>v\<in>snd ` set kv. v \<le> mm))
      \<and> (wwmi_vg_metadata_path sc = Parsed (JObject (Some components)) \<and> components \<noteq> []
          \<longrightarrow> execute_v10 sc objs =
                finish (for_selected
                  (process_object_v10 components (mm - 256) (wwmi_vg_remove_zero sc)) objs))
      \<and> (wwmi_vg_metadata_path sc = Parsed (JObject (Some components)) \<and> components \<noteq> []
            \<and> global_exceptions 0 components = Inr gx
          \<longrightarrow> execute_v11 sc objs =
                finish (for_selected
                  (process_object_v11 components (mm - 256) gx (wwmi_vg_remove_zero sc)) objs))
      \<and> (wwmi_vg_metadata_path sc = Parsed (JObject (Some components))
            \<and> k < length objs \<and> distinct (map vg_id (vertex_groups (objs ! k)))
            \<and> g \<in> set (vertex_groups (objs ! k))
            \<and> py_int (vg_name g) = Some n \<and> n > mm - 256
          \<longrightarrow> (\<forall>g'\<in>set (vertex_groups (fst (execute_v10 sc objs) ! k)).
                 vg_id g' = vg_id g \<longrightarrow> vg_name g' = vg_name g)
            \<and> (\<forall>g'\<in>set (vertex_groups (fst (execute_v11 sc objs) ! k)).
                 vg_id g' = vg_id g \<longrightarrow> vg_name g' = vg_name g)))"
proof (intro conjI impI)
  assume "(\<forall>c\<in>set components. comp_vg_map c \<noteq> None)
       \<and> (\<exists>c\<in>set components. \<exists>kv. comp_vg_map c = Some kv \<and> kv \<noteq> [])"
  then show "\<exists>mm. merged_max_vg components = Inr mm"
    using merged_max_vg_total by blast
next
  assume "merged_max_vg components = Inr mm"
  then show "\<exists>c\<in>set components. \<exists>kv. comp_vg_map c = Some kv \<and> mm \<in> snd ` set kv"
    by (rule merged_max_vg_is_max(1))
next
  assume "merged_max_vg components = Inr mm"
  then show "\<forall>c\<in>set components. \<forall>kv. comp_vg_map c = Some kv \<longrightarrow> (\<forall>v\<in>snd ` set kv. v \<le> mm)"
    by (rule merged_max_vg_is_max(2))
next
  assume "merged_max_vg components = Inr mm"
    and "wwmi_vg_metadata_path sc = Parsed (JObject (Some components)) \<and> components \<noteq> []"
  then show "execute_v10 sc objs =
      finish (for_selected
        (process_object_v10 components (mm - 256) (wwmi_vg_remove_zero sc)) objs)"
    by (simp add: execute_v10_loaded)
next
  assume "merged_max_vg components = Inr mm"
    and "wwmi_vg_metadata_path sc = Parsed (JObject (Some components)) \<and> components \<noteq> []
            \<and> global_exceptions 0 components = Inr gx"
  then show "execute_v11 sc objs =
      finish (for_selected
        (process_object_v11 components (mm - 256) gx (wwmi_vg_remove_zero sc)) objs)"
    by (simp add: execute_v11_loaded)
next
  assume m: "merged_max_vg components = Inr mm"
    and h: "wwmi_vg_metadata_path sc = Parsed (JObject (Some components))
            \<and> k < length objs \<and> distinct (map vg_id (vertex_groups (objs ! k)))
            \<and> g \<in> set (vertex_groups (objs ! k))
            \<and> py_int (vg_name g) = Some n \<and> n > mm - 256"
  then have p: "wwmi_vg_metadata_path sc = Parsed (JObject (Some components))"
    "merged_max_vg components = Inr mm" "k < length objs"
    "distinct (map vg_id (vertex_groups (objs ! k)))" "g \<in> set (vertex_groups (objs ! k))"
    "py_int (vg_name g) = Some n" "n > mm - 256"
    by blast+
  show "\<forall>g'\<in>set (vertex_groups (fst (execute_v10 sc objs) ! k)).
      vg_id g' = vg_id g \<longrightarrow> vg_name g' = vg_name g"
    using above_threshold_kept_v10 [OF p] by blast
  show "\<forall>g'\<in>set (vertex_groups (fst (execute_v11 sc objs) ! k)).
      vg_id g' = vg_id g \<longrightarrow> vg_name g' = vg_name g"
    using above_threshold_kept_v11 [OF p] by blast
qed


theorem merged_max_and_threshold_witness:
  "merged_max_vg scenario_components = Inr 257
   \<and> py_int ''257'' = Some 257 \<and> (257::int) > 257 - 256
   \<and> (257::int) \<in> set (map snd [(''a'', 256), (''b'', 257)])
   \<and> (\<exists>c\<in>set scenario_components. \<exists>kv. comp_vg_map c = Some kv \<and> (257::int) \<in> snd ` set kv)
   \<and> vg_name (vertex_groups (fst (execute_v10 (scenario_scene True)
        [scenario_object scenario_vertices]) ! 0) ! 0) = ''257''
   \<and> vg_name (vertex_groups (fst (execute_v11 (scenario_scene True)
        [scenario_object scenario_vertices]) ! 0) ! 0) = ''257''"
proof -
  let ?objs = "[scenario_object scenario_vertices]"
  let ?A = "fst (execute_v10 (scenario_scene True) ?objs)"
  let ?B = "fst (execute_v11 (scenario_scene True) ?objs)"
  let ?g = "\<lparr>vg_id = 0, vg_name = ''257''\<rparr>"
  have n: "py_int ''257'' = Some 257" by code_simp
  have tot: "(\<forall>c\<in>set scenario_components. comp_vg_map c \<noteq> None)
       \<and> (\<exists>c\<in>set scenario_components. \<exists>kv. comp_vg_map c = Some kv \<and> kv \<noteq> [])"
    by (simp add: scenario_components_def)
  have d: "distinct (map vg_id (vertex_groups (?objs ! 0)))"
    and g: "?g \<in> set (vertex_groups (?objs ! 0))"
    by (simp_all add: scenario_object_def)
  have inA: "vertex_groups (?A ! 0) ! 0 \<in> set (vertex_groups (?A ! 0))"
      "vg_id (vertex_groups (?A ! 0) ! 0) = 0"
    and inB: "vertex_groups (?B ! 0) ! 0 \<in> set (vertex_groups (?B ! 0))"
      "vg_id (vertex_groups (?B ! 0) ! 0) = 0"
    unfolding scenario_run by (simp_all add: scenario_object_def)
  note t = merged_max_and_threshold [where components = scenario_components and mm = 257
      and sc = "scenario_scene True" and objs = ?objs and k = 0 and g = ?g and n = 257]
  from t tot have "\<exists>mm. merged_max_vg scenario_components = Inr mm" by blast
  from t have mx: "\<exists>c\<in>set scenario_components. \<exists>kv. comp_vg_map c = Some kv
      \<and> (257::int) \<in> snd ` set kv"
    using scenario_merged by blast
  from t have a: "\<forall>g'\<in>set (vertex_groups (?A ! 0)). vg_id g' = 0 \<longrightarrow> vg_name g' = ''257''"
    and b: "\<forall>g'\<in>set (vertex_groups (?B ! 0)). vg_id g' = 0 \<longrightarrow> vg_name g' = ''257''"
    using scenario_merged scenario_sc(1) [of True] d g n by simp_all
  from a inA have "vg_name (vertex_groups (?A ! 0) ! 0) = ''257''" by blast
  moreover from b inB have "vg_name (vertex_groups (?B ! 0) ! 0) = ''257''" by blast
  ultimately show ?thesis
    using scenario_merged n mx by simp
qed

subsection \<open>The pattern of Remove "Check" Prefix\<close>

















subsection \<open>C4: Remove "Check" Prefix\<close>




subsection \<open>Skipping an object\<close>

lemma for_selected_skip:
  assumes "f obj = Inr (obj, False)"
  shows "for_selected f (pre @ obj # post) =
    (case for_selected f (pre @ post) of
       (objs', c, x) \<Rightarrow> (take (length pre) objs' @ obj # drop (length pre) objs', c, x))"
proof (induction pre)
  case Nil
  show ?case by (simp add: assms split: prod.splits)
next
  case (Cons a pre)
  show ?case
  proof (cases "f a")
    case (Inl e)
    then show ?thesis by simp
  next
    case (Inr r)
    obtain objs' c x where "for_selected f (pre @ post) = (objs', c, x)"
      by (cases "for_selected f (pre @ post)") auto
    with Cons Inr show ?thesis by simp
  qed
qed


lemma finish_skip:
  "finish (case r of
       (objs', c, x) \<Rightarrow> (take n objs' @ obj # drop n objs', c, x)) =
     (take n (fst (finish r)) @ obj # drop n (fst (finish r)), snd (finish r))"
  by (cases r) (simp add: finish_def)

lemma find_component_skips:
  assumes "comp_name_search name = None
    \<or> (\<exists>ds cid. comp_name_search name = Some ds \<and> py_int ds = Some cid
          \<and> cid \<ge> int (length components))"
  shows "find_component components name = Inr None"
  using assms by (auto simp: find_component_def)

lemma process_object_v10_skip:
  assumes "find_component components (obj_name obj) = Inr None
    \<or> find_component components (obj_name obj) = Inr (Some (Component (Some [])))"
  shows "process_object_v10 components th rz obj = Inr (obj, False)"
  using assms by (auto simp: process_object_v10_def)

lemma process_object_v11_skip:
  assumes "find_component components (obj_name obj) = Inr None"
  shows "process_object_v11 components th gx rz obj = Inr (obj, False)"
  using assms by (simp add: process_object_v11_def)

lemma execute_v10_skip:
  assumes "wwmi_vg_metadata_path sc = Parsed (JObject (Some components))"
    and "find_component components (obj_name obj) = Inr None
      \<or> find_component components (obj_name obj) = Inr (Some (Component (Some [])))"
  shows "execute_v10 sc (pre @ obj # post) =
    (take (length pre) (fst (execute_v10 sc (pre @ post))) @ obj
       # drop (length pre) (fst (execute_v10 sc (pre @ post))),
     snd (execute_v10 sc (pre @ post)))"
proof (cases "components \<noteq> [] \<and> (\<exists>mm. merged_max_vg components = Inr mm)")
  case True
  then obtain mm where mm: "merged_max_vg components = Inr mm" and ne: "components \<noteq> []"
    by blast
  let ?f = "process_object_v10 components (mm - 256) (wwmi_vg_remove_zero sc)"
  have "?f obj = Inr (obj, False)"
    by (rule process_object_v10_skip [OF assms(2)])
  with for_selected_skip [where f = ?f and obj = obj and pre = pre and post = post]
  have "for_selected ?f (pre @ obj # post) =
    (case for_selected ?f (pre @ post) of
       (objs', c, x) \<Rightarrow> (take (length pre) objs' @ obj # drop (length pre) objs', c, x))"
    by blast
  then show ?thesis
    unfolding execute_v10_loaded [OF assms(1) ne mm] by (simp only: finish_skip)
next
  case False
  then have "components = [] \<or> (\<exists>e. merged_max_vg components = Inl e)"
    by (cases "merged_max_vg components") auto
  with assms(1) show ?thesis by (auto simp: execute_v10_def)
qed

lemma global_exceptions_total:
  "\<forall>c\<in>set cs. comp_vg_map c \<noteq> None \<Longrightarrow> \<exists>gx. global_exceptions i cs = Inr gx"
proof (induction cs arbitrary: i)
  case Nil
  show ?case by simp
next
  case (Cons c cs)
  from Cons.prems obtain m where m: "comp_vg_map c = Some m" by auto
  from Cons.prems have "\<forall>c\<in>set cs. comp_vg_map c \<noteq> None" by simp
  from Cons.IH [OF this, of "Suc i"] obtain gx where "global_exceptions (Suc i) cs = Inr gx"
    by blast
  with m show ?case by simp
qed

lemma execute_v11_skip:
  assumes "wwmi_vg_metadata_path sc = Parsed (JObject (Some components))"
    and "find_component components (obj_name obj) = Inr None"
  shows "execute_v11 sc (pre @ obj # post) =
    (take (length pre) (fst (execute_v11 sc (pre @ post))) @ obj
       # drop (length pre) (fst (execute_v11 sc (pre @ post))),
     snd (execute_v11 sc (pre @ post)))"
proof (cases "components \<noteq> [] \<and> (\<exists>mm. merged_max_vg components = Inr mm)
    \<and> (\<exists>gx. global_exceptions 0 components = Inr gx)")
  case True
  then obtain mm gx where mm: "merged_max_vg components = Inr mm" and ne: "components \<noteq> []"
    and gx: "global_exceptions 0 components = Inr gx"
    by blast
  let ?f = "process_object_v11 components (mm - 256) gx (wwmi_vg_remove_zero sc)"
  have "?f obj = Inr (obj, False)"
    by (rule process_object_v11_skip [OF assms(2)])
  with for_selected_skip [where f = ?f and obj = obj and pre = pre and post = post]
  have "for_selected ?f (pre @ obj # post) =
    (case for_selected ?f (pre @ post) of
       (objs', c, x) \<Rightarrow> (take (length pre) objs' @ obj # drop (length pre) objs', c, x))"
    by blast
  then show ?thesis
    unfolding execute_v11_loaded [OF assms(1) ne mm gx] by (simp only: finish_skip)
next
  case False
  then have "components = [] \<or> (\<exists>e. merged_max_vg components = Inl e)
      \<or> (\<exists>e. global_exceptions 0 components = Inl e)"
    by (cases "merged_max_vg components"; cases "global_exceptions 0 components") auto
  with assms(1) show ?thesis
    by (auto simp: execute_v11_def split: sum.splits)
qed

lemma all_vg_values_absent:
  "\<exists>c\<in>set cs. comp_vg_map c = None \<Longrightarrow> all_vg_values cs = Inl KeyError"
proof (induction cs)
  case Nil
  then show ?case by simp
next
  case (Cons c cs)
  show ?case
  proof (cases "comp_vg_map c")
    case None
    then show ?thesis by simp
  next
    case (Some m)
    with Cons.prems have "\<exists>c\<in>set cs. comp_vg_map c = None" by auto
    from Cons.IH [OF this] Some show ?thesis by simp
  qed
qed

lemma merged_max_vg_absent:
  "\<exists>c\<in>set cs. comp_vg_map c = None \<Longrightarrow> merged_max_vg cs = Inl KeyError"
  by (simp add: merged_max_vg_def all_vg_values_absent)

subsection \<open>C5: objects that are skipped\<close>

text \<open>
  C5, as the code has it. On metadata whose components are \<open>components\<close>, let \<open>obj\<close> be
  selected between the objects \<open>pre\<close> and the objects \<open>post\<close>. When the name of \<open>obj\<close>
  yields no component id, or yields an id that is not below the number of components,
  both versions give the result of the run without \<open>obj\<close>, with \<open>obj\<close> itself put back at
  its place: the same outcome, the same count, the same other objects. In version 1.0.0
  the same holds when the component of \<open>obj\<close> has an empty \<open>vg_map\<close>. A component without
  the key \<open>vg_map\<close> is not an issue of one object: the run ends before the first object,
  \<open>CANCELLED\<close> in version 1.0.0 and with the \<open>KeyError\<close> in version 1.1.0, and every
  object is as it was.
\<close>

theorem per_object_skip:
  assumes "wwmi_vg_metadata_path sc = Parsed (JObject (Some components))"
  shows "(comp_name_search (obj_name obj) = None
          \<or> (\<exists>ds cid. comp_name_search (obj_name obj) = Some ds \<and> py_int ds = Some cid
                \<and> cid \<ge> int (length components))
        \<longrightarrow> execute_v10 sc (pre @ obj # post) =
              (take (length pre) (fst (execute_v10 sc (pre @ post))) @ obj
                 # drop (length pre) (fst (execute_v10 sc (pre @ post))),
               snd (execute_v10 sc (pre @ post)))
          \<and> execute_v11 sc (pre @ obj # post) =
              (take (length pre) (fst (execute_v11 sc (pre @ post))) @ obj
                 # drop (length pre) (fst (execute_v11 sc (pre @ post))),
               snd (execute_v11 sc (pre @ post))))
    \<and> (find_component components (obj_name obj) = Inr (Some (Component (Some [])))
        \<longrightarrow> execute_v10 sc (pre @ obj # post) =
              (take (length pre) (fst (execute_v10 sc (pre @ post))) @ obj
                 # drop (length pre) (fst (execute_v10 sc (pre @ post))),
               snd (execute_v10 sc (pre @ post))))
    \<and> ((\<exists>c\<in>set components. comp_vg_map c = None)
        \<longrightarrow> execute_v10 sc objs = (objs, CANCELLED ''Failed to compute max VG: '')
          \<and> execute_v11 sc objs = (objs, RAISED KeyError))"
proof (intro conjI impI)
  assume "comp_name_search (obj_name obj) = None
          \<or> (\<exists>ds cid. comp_name_search (obj_name obj) = Some ds \<and> py_int ds = Some cid
                \<and> cid \<ge> int (length components))"
  then have f: "find_component components (obj_name obj) = Inr None"
    by (rule find_component_skips)
  then show "execute_v10 sc (pre @ obj # post) =
              (take (length pre) (fst (execute_v10 sc (pre @ post))) @ obj
                 # drop (length pre) (fst (execute_v10 sc (pre @ post))),
               snd (execute_v10 sc (pre @ post)))"
    by (intro execute_v10_skip [OF assms]) simp
  from f show "execute_v11 sc (pre @ obj # post) =
              (take (length pre) (fst (execute_v11 sc (pre @ post))) @ obj
                 # drop (length pre) (fst (execute_v11 sc (pre @ post))),
               snd (execute_v11 sc (pre @ post)))"
    by (rule execute_v11_skip [OF assms])
next
  assume "find_component components (obj_name obj) = Inr (Some (Component (Some [])))"
  then show "execute_v10 sc (pre @ obj # post) =
              (take (length pre) (fst (execute_v10 sc (pre @ post))) @ obj
                 # drop (length pre) (fst (execute_v10 sc (pre @ post))),
               snd (execute_v10 sc (pre @ post)))"
    by (intro execute_v10_skip [OF assms]) simp
next
  assume a: "\<exists>c\<in>set components. comp_vg_map c = None"
  then have m: "merged_max_vg components = Inl KeyError"
    by (rule merged_max_vg_absent)
  from a have ne: "components \<noteq> []" by auto
  from assms m ne show "execute_v10 sc objs = (objs, CANCELLED ''Failed to compute max VG: '')"
    by (simp add: execute_v10_def)
  from assms m ne show "execute_v11 sc objs = (objs, RAISED KeyError)"
    by (simp add: execute_v11_def)
qed

lemma skip_fixtures:
  "comp_name_search (obj_name unnamed_object) = None"
  "comp_name_search (obj_name far_object) = Some ''12''" "py_int ''12'' = Some 12"
  "int (length example_components) = 4"
  "find_component empty_components (obj_name example_object_1) = Inr (Some (Component (Some [])))"
  "find_component absent_components (obj_name example_object_1) = Inr (Some (Component None))"
  by code_simp+

lemma empty_run_v10:
  "execute_v10 empty_scene [example_object_0] =
    ([example_object_0\<lparr>vertex_groups :=
        [\<lparr>vg_id = 0, vg_name = ''Check05''\<rparr>, \<lparr>vg_id = 1, vg_name = ''263''\<rparr>,
         \<lparr>vg_id = 2, vg_name = ''400''\<rparr>, \<lparr>vg_id = 3, vg_name = ''hand''\<rparr>,
         \<lparr>vg_id = 4, vg_name = ''265''\<rparr>]\<rparr>], FINISHED 1)"
  by code_simp

lemma scene_paths:
  "wwmi_vg_metadata_path empty_scene = Parsed (JObject (Some empty_components))"
  "wwmi_vg_metadata_path absent_scene = Parsed (JObject (Some absent_components))"
  "wwmi_vg_metadata_path bad_json_scene = BadJson"
  by (simp_all add: empty_scene_def absent_scene_def bad_json_scene_def)

theorem per_object_skip_witness:
  "execute_v10 example_scene [example_object_0, unnamed_object, example_object_1] =
     ([fst (execute_v10 example_scene example_objects) ! 0, unnamed_object,
       fst (execute_v10 example_scene example_objects) ! 1], FINISHED 2)
   \<and> execute_v11 example_scene [example_object_0, far_object, example_object_1] =
     ([fst (execute_v11 example_scene example_objects) ! 0, far_object,
       fst (execute_v11 example_scene example_objects) ! 1], FINISHED 2)
   \<and> vg_name (vertex_groups (fst (execute_v11 example_scene
         [example_object_0, far_object, example_object_1]) ! 2) ! 1) = ''259''
   \<and> execute_v10 empty_scene [example_object_1, example_object_0] =
     (example_object_1 # fst (execute_v10 empty_scene [example_object_0]), FINISHED 1)
   \<and> vg_name (vertex_groups (fst (execute_v10 empty_scene
         [example_object_1, example_object_0]) ! 1) ! 0) = ''Check05''
   \<and> execute_v10 absent_scene example_objects =
        (example_objects, CANCELLED ''Failed to compute max VG: '')
   \<and> execute_v11 absent_scene example_objects = (example_objects, RAISED KeyError)"
proof -
  let ?pre = "[example_object_0]" and ?post = "[example_object_1]"
  note t1 = per_object_skip [OF example_loaded(1), where obj = unnamed_object
      and pre = ?pre and post = ?post and objs = "[]"]
  note t2 = per_object_skip [OF example_loaded(1), where obj = far_object
      and pre = ?pre and post = ?post and objs = "[]"]
  note t3 = per_object_skip [OF scene_paths(1), where obj = example_object_1
      and pre = "[]" and post = ?pre and objs = "[]"]
  note t4 = per_object_skip [OF scene_paths(2), where objs = example_objects
      and obj = example_object_1 and pre = "[]" and post = "[]"]
  have x: "?pre @ ?post = example_objects"
    by (simp add: example_objects_def)
  from t1 skip_fixtures(1)
  have "execute_v10 example_scene (?pre @ unnamed_object # ?post) =
      (take (length ?pre) (fst (execute_v10 example_scene (?pre @ ?post))) @ unnamed_object
         # drop (length ?pre) (fst (execute_v10 example_scene (?pre @ ?post))),
       snd (execute_v10 example_scene (?pre @ ?post)))"
    by blast
  then have a: "execute_v10 example_scene [example_object_0, unnamed_object, example_object_1] =
     ([fst (execute_v10 example_scene example_objects) ! 0, unnamed_object,
       fst (execute_v10 example_scene example_objects) ! 1], FINISHED 2)"
    unfolding x by (simp add: example_run_v10)
  from skip_fixtures(2,3,4)
  have "\<exists>ds cid. comp_name_search (obj_name far_object) = Some ds \<and> py_int ds = Some cid
      \<and> cid \<ge> int (length example_components)"
    by simp
  with t2
  have "execute_v11 example_scene (?pre @ far_object # ?post) =
      (take (length ?pre) (fst (execute_v11 example_scene (?pre @ ?post))) @ far_object
         # drop (length ?pre) (fst (execute_v11 example_scene (?pre @ ?post))),
       snd (execute_v11 example_scene (?pre @ ?post)))"
    by blast
  then have b: "execute_v11 example_scene [example_object_0, far_object, example_object_1] =
     ([fst (execute_v11 example_scene example_objects) ! 0, far_object,
       fst (execute_v11 example_scene example_objects) ! 1], FINISHED 2)"
    unfolding x by (simp add: example_run_v11)
  from t3 [THEN conjunct2, THEN conjunct1] skip_fixtures(5)
  have c: "execute_v10 empty_scene [example_object_1, example_object_0] =
     (example_object_1 # fst (execute_v10 empty_scene [example_object_0]), FINISHED 1)"
    by (simp add: empty_run_v10)
  have "\<exists>c\<in>set absent_components. comp_vg_map c = None"
    by (simp add: absent_components_def)
  with t4 have d: "execute_v10 absent_scene example_objects =
        (example_objects, CANCELLED ''Failed to compute max VG: '')"
    "execute_v11 absent_scene example_objects = (example_objects, RAISED KeyError)"
    by blast+
  show ?thesis
    unfolding a b c d by (simp add: example_run_v11 empty_run_v10)
qed

text \<open>
  C5, as the claim states it, fails for a component without \<open>vg_map\<close>. The object
  \<open>Component 1\<close> leads to such a component; the run does not skip it and go on: it ends
  before any object is visited, \<open>CANCELLED\<close> in version 1.0.0 and with a \<open>KeyError\<close> in
  version 1.1.0, so the other selected object, whose component 0 is complete, is not
  processed either.
\<close>

theorem absent_vg_map_counterexample:
  "find_component absent_components (obj_name (example_objects ! 1)) =
      Inr (Some (Component None))
   \<and> execute_v10 absent_scene example_objects =
        (example_objects, CANCELLED ''Failed to compute max VG: '')
   \<and> execute_v11 absent_scene example_objects = (example_objects, RAISED KeyError)
   \<and> vg_name (vertex_groups (fst (execute_v10 absent_scene example_objects) ! 0) ! 1) = ''7''
   \<and> vg_name (vertex_groups (fst (execute_v11 absent_scene example_objects) ! 0) ! 1) = ''7''"
  by code_simp

text \<open>
  Version 1.1.0 has no guard for an empty \<open>vg_map\<close>: \<open>max\<close> of the empty set raises
  \<open>ValueError\<close>, the operator ends there, and the objects after that one are not visited,
  where version 1.0.0 skips the object and processes the next.
\<close>

lemma empty_vg_map_v11_raises:
  "execute_v11 empty_scene [example_object_1, example_object_0] =
     ([example_object_1, example_object_0], RAISED ValueError)
   \<and> snd (execute_v10 empty_scene [example_object_1, example_object_0]) = FINISHED 1"
  by code_simp

subsection \<open>When the merged maximum cannot be computed\<close>


subsection \<open>C6: metadata that fails to load\<close>



subsection \<open>The two versions on at most three components\<close>

lemma global_exceptions_short:
  "length cs + i \<le> 3 \<Longrightarrow> global_exceptions i cs = Inr []"
  by (induction cs arbitrary: i) simp_all

lemma py_index_in: "py_index xs i = Inr x \<Longrightarrow> x \<in> set xs"
  by (auto simp: py_index_def split: if_splits)

lemma find_component_in:
  assumes "find_component components name = Inr (Some c)"
  shows "c \<in> set components"
  using assms
  by (auto simp: find_component_def split: option.splits if_splits sum.splits dest: py_index_in)

lemma fix_vg_no_global: "fix_vg_v11 th [] ex cm = fix_vg_v10 th ex cm"
proof (rule ext)
  fix name
  show "fix_vg_v11 th [] ex cm name = fix_vg_v10 th ex cm name"
    by (cases "py_int name") (simp_all add: fix_vg_v11_def fix_vg_v10_def)
qed

lemma process_object_same:
  assumes "\<forall>c\<in>set components. \<exists>m. comp_vg_map c = Some m \<and> m \<noteq> []"
  shows "process_object_v11 components th [] rz obj = process_object_v10 components th rz obj"
proof (cases "find_component components (obj_name obj)")
  case (Inl e)
  then show ?thesis by (simp add: process_object_v11_def process_object_v10_def)
next
  case (Inr r)
  show ?thesis
  proof (cases r)
    case None
    with Inr show ?thesis by (simp add: process_object_v11_def process_object_v10_def)
  next
    case (Some c)
    with Inr have "c \<in> set components" using find_component_in by blast
    with assms obtain m where "comp_vg_map c = Some m" "m \<noteq> []" by blast
    with Inr Some show ?thesis
      by (simp add: process_object_v11_def process_object_v10_def Let_def fix_vg_no_global
          py_max_Max)
  qed
qed

subsection \<open>C10: the versions agree up to three components\<close>

text \<open>
  C10. On metadata with at most three components, each with a non-empty \<open>vg_map\<close>, the
  global exception set of version 1.1.0 is empty and the two versions leave the selected
  objects in the same state, hence every vertex group with the same name; when there is
  at least one component the two versions also end with the same outcome and count (with
  no component, both end \<open>CANCELLED\<close>, each with its own message).
\<close>

theorem versions_agree_up_to_three:
  assumes "wwmi_vg_metadata_path sc = Parsed (JObject (Some components))"
    and "length components \<le> 3"
    and "\<forall>c\<in>set components. \<exists>m. comp_vg_map c = Some m \<and> m \<noteq> []"
  shows "global_exceptions 0 components = Inr []
    \<and> fst (execute_v11 sc objs) = fst (execute_v10 sc objs)
    \<and> (components \<noteq> [] \<longrightarrow> execute_v11 sc objs = execute_v10 sc objs)"
proof -
  have gx: "global_exceptions 0 components = Inr []"
    using assms(2) by (intro global_exceptions_short) simp
  have eq: "execute_v11 sc objs = execute_v10 sc objs" if ne: "components \<noteq> []"
  proof -
    from assms(3) have "\<forall>c\<in>set components. comp_vg_map c \<noteq> None" by auto
    moreover from ne assms(3) have "\<exists>c\<in>set components. \<exists>kv. comp_vg_map c = Some kv \<and> kv \<noteq> []"
      by (cases components) auto
    ultimately obtain mm where mm: "merged_max_vg components = Inr mm"
      using merged_max_vg_total by blast
    have "for_selected (process_object_v11 components (mm - 256) [] (wwmi_vg_remove_zero sc)) objs
        = for_selected (process_object_v10 components (mm - 256) (wwmi_vg_remove_zero sc)) objs"
      by (rule for_selected_cong) (rule process_object_same [OF assms(3)])
    then show ?thesis
      by (simp add: execute_v11_loaded [OF assms(1) ne mm gx]
          execute_v10_loaded [OF assms(1) ne mm])
  qed
  have "fst (execute_v11 sc objs) = fst (execute_v10 sc objs)"
  proof (cases "components = []")
    case True
    with assms(1) show ?thesis by (simp add: execute_v11_def execute_v10_def)
  next
    case False
    then show ?thesis by (simp add: eq)
  qed
  with gx eq show ?thesis by blast
qed

theorem versions_agree_up_to_three_witness:
  "length scenario_components \<le> 3
   \<and> global_exceptions 0 scenario_components = Inr []
   \<and> execute_v11 (scenario_scene True) [scenario_object scenario_vertices] =
       execute_v10 (scenario_scene True) [scenario_object scenario_vertices]"
proof -
  have l: "length scenario_components \<le> 3"
    and a: "\<forall>c\<in>set scenario_components. \<exists>m. comp_vg_map c = Some m \<and> m \<noteq> []"
    by (simp_all add: scenario_components_def)
  from versions_agree_up_to_three [OF scenario_sc(1) [of True] l a,
      where objs = "[scenario_object scenario_vertices]"] scenario_nonempty l
  show ?thesis by simp
qed

text \<open>The bound is sharp: with the four components of the example the versions differ.\<close>

lemma versions_differ_on_four:
  "length example_components = 4
   \<and> map vg_name (vertex_groups (fst (execute_v11 example_scene example_objects) ! 0)) \<noteq>
       map vg_name (vertex_groups (fst (execute_v10 example_scene example_objects) ! 0))"
  by (simp add: example_run_v10 example_run_v11 example_components_def)

end
